theory Spec2Isabelle
  imports Main "HOL-Library.AList" "HOL-Library.Multiset"
begin

section \<open>Data model of pkg/squashctl/app.go\<close>

text \<open>
  The command resolves a debug target (namespace, pod, container, debugger, local port)
  and then attaches either directly or through the in-cluster agent (secure mode).
  Kubernetes objects are reduced to the fields the code reads: a container has a name and
  an image, a pod has a name and its containers, a namespace and a deployment are their
  names.
\<close>

record container =
  container_Name :: string
  container_Image :: string

record pod =
  pod_Name :: string
  pod_Containers :: "container list"

text \<open>\<open>config.DebugTarget\<close> holds two pointers; \<open>None\<close> is the nil pointer.\<close>

record debugTarget =
  dt_Pod :: "pod option"
  dt_Container :: "container option"

text \<open>\<open>config.Squash\<close>, with the fields that \<open>applySquashFlags\<close> binds.\<close>

record squash =
  NoClean :: bool
  ChooseDebugger :: bool
  ChoosePod :: bool
  TimeoutSeconds :: int
  DebugContainerVersion :: string
  DebugContainerRepo :: string
  LocalPort :: int
  Machine :: bool
  Debugger :: string
  Namespace :: string
  Pod :: string
  Container :: string
  CRISock :: string

text \<open>
  Errors are values. \<open>New\<close> is \<open>errors.New\<close>, \<open>Wrap\<close> is \<open>errors.Wrap\<close>,
  \<open>Errorf\<close> is \<open>fmt.Errorf\<close> with its format string and its integer arguments.
  A nil-pointer dereference panics in Go; the model returns \<open>NilPointerPanic\<close> so that
  the crash is a branch like any other.
\<close>

datatype error =
    New string
  | Wrap error string
  | Errorf string "int list"
  | NilPointerPanic

type_synonym deployment = string

text \<open>
  Every call that leaves the process is recorded, with its arguments and, where the code
  reads it, the answer it got. The history is the model's counterpart of the clients held
  by \<open>Options\<close> (\<open>KubeClient\<close>, \<open>daClient\<close>) and of the terminal.
  Writes to standard output (\<open>printVerbose\<close>, \<open>fmt.Println\<close>) do not influence
  control flow and are not recorded.
\<close>

datatype event =
    EvListNamespaces "error + string list"
  | EvListPods string string "error + pod list"
  | EvSelect string "string list" "error + string"
  | EvConfirm string "error + bool"
  | EvGetDebugTargetPodFromSpec squash "error + debugTarget"
  | EvGetDebugTargetContainerFromSpec squash "error + debugTarget"
  | EvFindAnyFreePort "error + int"
  | EvExpectPortToBeFree int "error option"
  | EvGetNamespaces "error + string list"
  | EvListSquashDeployments "string list" "error + deployment list"
  | EvNewUserController "error option"
  | EvAttach string string string string string string string
  | EvSleep nat
  | EvReportOrConnect pod "error option"
  | EvStartDebugContainer squash debugTarget "error option"

text \<open>
  The collaborators whose code is outside this file are parameters. Each answers as a
  function of the history so far, so the cluster may change between two calls (the pod
  list before and after the sleep need not agree). \<open>askSelect\<close> is
  \<open>survey.AskOne\<close> on a \<open>survey.Select\<close> with the \<open>survey.Required\<close> validator,
  \<open>askConfirm\<close> is \<open>survey.AskOne\<close> on a \<open>survey.Confirm\<close>.
  \<open>GetDebugTargetPodFromSpec\<close> and \<open>GetDebugTargetContainerFromSpec\<close> receive a
  pointer to the debug target and are modelled as returning the target they leave behind.
  \<open>mapOrder\<close> is the order in which the Go runtime visits the entries of a map in a
  \<open>range\<close> loop.
\<close>

record env =
  listNamespaces :: "event list \<Rightarrow> error + string list"
  listPods :: "event list \<Rightarrow> string \<Rightarrow> string \<Rightarrow> error + pod list"
  askSelect :: "event list \<Rightarrow> string \<Rightarrow> string list \<Rightarrow> error + string"
  askConfirm :: "event list \<Rightarrow> string \<Rightarrow> error + bool"
  getDebugTargetPodFromSpec :: "event list \<Rightarrow> squash \<Rightarrow> debugTarget \<Rightarrow> error + debugTarget"
  getDebugTargetContainerFromSpec :: "event list \<Rightarrow> squash \<Rightarrow> debugTarget \<Rightarrow> error + debugTarget"
  findAnyFreePort :: "event list \<Rightarrow> error + int"
  expectPortToBeFree :: "event list \<Rightarrow> int \<Rightarrow> error option"
  getNamespaces :: "event list \<Rightarrow> error + string list"
  listSquashDeployments :: "event list \<Rightarrow> string list \<Rightarrow> error + deployment list"
  newUserController :: "event list \<Rightarrow> error option"
  genDebugAttachmentName :: "string \<Rightarrow> string \<Rightarrow> string"
  reportOrConnect :: "event list \<Rightarrow> squash \<Rightarrow> pod \<Rightarrow> error option"
  startDebugContainer :: "event list \<Rightarrow> squash \<Rightarrow> debugTarget \<Rightarrow> error option"
  squashLabelSelectorString :: string
  availableDebuggers :: "string list"
  mapOrder :: "(string \<times> pod) list \<Rightarrow> (string \<times> pod) list"

text \<open>
  \<open>Options\<close>: the merged configuration, the debug target, the secure-mode setting
  (\<open>o.Config.secureMode\<close>) and the history of calls made so far.
\<close>

record Options =
  Squash :: squash
  DebugTarget :: debugTarget
  secureMode :: bool
  history :: "event list"

definition record_event :: "event \<Rightarrow> Options \<Rightarrow> Options" where
  "record_event e opts = opts\<lparr>history := history opts @ [e]\<rparr>"

text \<open>\<open>strings.HasPrefix(s, prefix)\<close>.\<close>

definition HasPrefix :: "string \<Rightarrow> string \<Rightarrow> bool" where
  "HasPrefix s p = (length p \<le> length s \<and> take (length p) s = p)"

section \<open>Debugger\<close>

definition detectLang :: "Options \<Rightarrow> string" where
  "detectLang opts = (if ChooseDebugger (Squash opts) then [] else [])"

definition chooseDebugger :: "env \<Rightarrow> Options \<Rightarrow> error option \<times> Options" where
  "chooseDebugger env opts =
     (if Debugger (Squash opts) \<noteq> [] then (None, opts)
      else
        let debugger = detectLang opts in
        if debugger = [] then
          (let r = askSelect env (history opts) ''Select a debugger'' (availableDebuggers env);
               o1 = record_event (EvSelect ''Select a debugger'' (availableDebuggers env) r) opts
           in case r of
                Inl err \<Rightarrow> (Some err, o1)
              | Inr choice \<Rightarrow> (None, o1\<lparr>Squash := (Squash o1)\<lparr>Debugger := choice\<rparr>\<rparr>))
        else (None, opts\<lparr>Squash := (Squash opts)\<lparr>Debugger := debugger\<rparr>\<rparr>))"

section \<open>Namespace\<close>

text \<open>The loop of \<open>chooseAllowedNamespace\<close> over the listed namespaces.\<close>

fun namespaceNames :: "string list \<Rightarrow> string list \<Rightarrow> string list" where
  "namespaceNames [] acc = acc"
| "namespaceNames (nsname # rest) acc =
     (if nsname = ''squash'' then namespaceNames rest acc
      else if HasPrefix nsname ''kube-'' then namespaceNames rest acc
      else namespaceNames rest (acc @ [nsname]))"

text \<open>
  \<open>target\<close> is passed by pointer: the function takes its value and returns the value it
  leaves there.
\<close>

definition chooseAllowedNamespace ::
  "env \<Rightarrow> Options \<Rightarrow> string \<Rightarrow> string \<Rightarrow> error option \<times> string \<times> Options" where
  "chooseAllowedNamespace env opts target question =
     (let r = listNamespaces env (history opts);
          o1 = record_event (EvListNamespaces r) opts
      in case r of
           Inl err \<Rightarrow> (Some (Wrap err ''reading namespaces''), target, o1)
         | Inr items \<Rightarrow>
             (case namespaceNames items [] of
                [] \<Rightarrow> (Some (New ''no namespaces available!''), target, o1)
              | [n] \<Rightarrow> (None, n, o1)
              | names \<Rightarrow>
                  (let q = askSelect env (history o1) question names;
                       o2 = record_event (EvSelect question names q) o1
                   in case q of
                        Inl err \<Rightarrow> (Some err, target, o2)
                      | Inr choice \<Rightarrow> (None, choice, o2))))"

section \<open>Pod\<close>

text \<open>The inner loop of \<open>choosePod\<close>: append the pod's name at the first matching image.\<close>

fun appendIfImageMatches :: "string \<Rightarrow> string \<Rightarrow> container list \<Rightarrow> string list \<Rightarrow> string list" where
  "appendIfImageMatches c name [] acc = acc"
| "appendIfImageMatches c name (podContainer # rest) acc =
     (if HasPrefix (container_Image podContainer) c then acc @ [name]
      else appendIfImageMatches c name rest acc)"

fun podNames :: "squash \<Rightarrow> pod list \<Rightarrow> string list \<Rightarrow> string list" where
  "podNames sq [] acc = acc"
| "podNames sq (p # rest) acc =
     (if ChoosePod sq \<or> Container sq = [] then podNames sq rest (acc @ [pod_Name p])
      else podNames sq rest (appendIfImageMatches (Container sq) (pod_Name p) (pod_Containers p) acc))"

fun findPod :: "string \<Rightarrow> pod list \<Rightarrow> pod option" where
  "findPod choice [] = None"
| "findPod choice (p # rest) = (if choice = pod_Name p then Some p else findPod choice rest)"

text \<open>The closing loop of \<open>choosePod\<close>: take the first listed pod that has the chosen name.\<close>

definition selectPod :: "string \<Rightarrow> pod list \<Rightarrow> Options \<Rightarrow> error option \<times> Options" where
  "selectPod choice items opts =
     (case findPod choice items of
        Some p \<Rightarrow>
          (None, opts\<lparr>DebugTarget := (DebugTarget opts)\<lparr>dt_Pod := Some p\<rparr>,
                      Squash := (Squash opts)\<lparr>Pod := pod_Name p\<rparr>\<rparr>)
      | None \<Rightarrow> (Some (New ''pod not found''), opts))"

definition choosePod :: "env \<Rightarrow> Options \<Rightarrow> error option \<times> Options" where
  "choosePod env opts =
     (let r = listPods env (history opts) (Namespace (Squash opts)) [];
          o1 = record_event (EvListPods (Namespace (Squash opts)) [] r) opts
      in case r of
           Inl err \<Rightarrow> (Some (Wrap err ''reading namesapces''), o1)
         | Inr items \<Rightarrow>
             (case podNames (Squash o1) items [] of
                [n] \<Rightarrow> selectPod n items o1
              | podName \<Rightarrow>
                  (let q = askSelect env (history o1) ''Select a pod'' podName;
                       o2 = record_event (EvSelect ''Select a pod'' podName q) o1
                   in case q of
                        Inl err \<Rightarrow> (Some err, o2)
                      | Inr choice \<Rightarrow> selectPod choice items o2)))"

section \<open>Container\<close>

fun containerNames :: "container list \<Rightarrow> string list \<Rightarrow> string list" where
  "containerNames [] acc = acc"
| "containerNames (c # rest) acc = containerNames rest (acc @ [container_Name c])"

fun findContainer :: "string \<Rightarrow> container list \<Rightarrow> container option" where
  "findContainer choice [] = None"
| "findContainer choice (c # rest) =
     (if choice = container_Name c then Some c else findContainer choice rest)"

text \<open>The two assignments that \<open>chooseContainer\<close> makes once it has its container.\<close>

definition setContainer :: "container \<Rightarrow> Options \<Rightarrow> Options" where
  "setContainer c opts =
     opts\<lparr>DebugTarget := (DebugTarget opts)\<lparr>dt_Container := Some c\<rparr>,
          Squash := (Squash opts)\<lparr>Container := container_Name c\<rparr>\<rparr>"

definition chooseContainer :: "env \<Rightarrow> Options \<Rightarrow> error option \<times> Options" where
  "chooseContainer env opts =
     (case dt_Pod (DebugTarget opts) of
        None \<Rightarrow> (Some NilPointerPanic, opts)
      | Some p \<Rightarrow>
          (case pod_Containers p of
             [] \<Rightarrow> (Some (New ''no container to choose from''), opts)
           | [c] \<Rightarrow> (None, setContainer c opts)
           | cs \<Rightarrow>
               (let names = containerNames cs [];
                    q = askSelect env (history opts) ''Select a container'' names;
                    o1 = record_event (EvSelect ''Select a container'' names q) opts
                in case q of
                     Inl err \<Rightarrow> (Some err, o1)
                   | Inr choice \<Rightarrow>
                       (case findContainer choice cs of
                          Some c \<Rightarrow> (None, setContainer c o1)
                        | None \<Rightarrow> (Some (New ''selected container not found''), o1)))))"

section \<open>Resolution of the missing options\<close>

text \<open>
  \<open>GetMissing\<close> is three \<open>if\<close>/\<open>else\<close> blocks in a row, for the namespace, the pod
  and the container. Each block is a definition of its own here; \<open>GetMissing\<close> runs them
  in order.
\<close>

definition resolveNamespace :: "env \<Rightarrow> Options \<Rightarrow> error option \<times> Options" where
  "resolveNamespace env opts =
     (if Namespace (Squash opts) = [] then
        (case chooseAllowedNamespace env opts (Namespace (Squash opts)) ''Select a namespace to debug'' of
           (e, target, o1) \<Rightarrow>
             (let o2 = o1\<lparr>Squash := (Squash o1)\<lparr>Namespace := target\<rparr>\<rparr>
              in case e of
                   Some err \<Rightarrow> (Some (Wrap err ''choosing namespace''), o2)
                 | None \<Rightarrow> (None, o2)))
      else (None, opts))"

definition resolvePod :: "env \<Rightarrow> Options \<Rightarrow> error option \<times> Options" where
  "resolvePod env opts =
     (if Pod (Squash opts) = [] then
        (case choosePod env opts of
           (Some err, o1) \<Rightarrow> (Some (Wrap err ''choosing pod''), o1)
         | (None, o1) \<Rightarrow> (None, o1))
      else
        (let r = getDebugTargetPodFromSpec env (history opts) (Squash opts) (DebugTarget opts);
             o1 = record_event (EvGetDebugTargetPodFromSpec (Squash opts) r) opts
         in case r of
              Inl err \<Rightarrow> (Some err, o1)
            | Inr dt \<Rightarrow> (None, o1\<lparr>DebugTarget := dt\<rparr>)))"

text \<open>
  \<open>chooseContainer\<close> may panic on a nil pod. A panic is not a value that \<open>errors.Wrap\<close>
  receives: it unwinds through \<open>GetMissing\<close> as it is.
\<close>

definition wrapUnlessPanic :: "error \<Rightarrow> string \<Rightarrow> error" where
  "wrapUnlessPanic err msg = (if err = NilPointerPanic then NilPointerPanic else Wrap err msg)"

definition resolveContainer :: "env \<Rightarrow> Options \<Rightarrow> error option \<times> Options" where
  "resolveContainer env opts =
     (if Container (Squash opts) = [] then
        (case chooseContainer env opts of
           (Some err, o1) \<Rightarrow> (Some (wrapUnlessPanic err ''choosing container''), o1)
         | (None, o1) \<Rightarrow> (None, o1))
      else
        (let r = getDebugTargetContainerFromSpec env (history opts) (Squash opts) (DebugTarget opts);
             o1 = record_event (EvGetDebugTargetContainerFromSpec (Squash opts) r) opts
         in case r of
              Inl err \<Rightarrow> (Some err, o1)
            | Inr dt \<Rightarrow> (None, o1\<lparr>DebugTarget := dt\<rparr>)))"

text \<open>\<open>GetMissing\<close>: the three blocks in the order of the source, stopping at the first error.\<close>

definition GetMissing :: "env \<Rightarrow> Options \<Rightarrow> error option \<times> Options" where
  "GetMissing env opts =
     (case resolveNamespace env opts of
        (Some err, o1) \<Rightarrow> (Some err, o1)
      | (None, o1) \<Rightarrow>
          (case resolvePod env o1 of
             (Some err, o2) \<Rightarrow> (Some err, o2)
           | (None, o2) \<Rightarrow> resolveContainer env o2))"

section \<open>Local port\<close>

text \<open>\<open>port\<close> is a pointer to an int: \<open>None\<close> is nil, and the value left there is returned.\<close>

definition ensureLocalPort ::
  "env \<Rightarrow> Options \<Rightarrow> int option \<Rightarrow> error option \<times> int option \<times> Options" where
  "ensureLocalPort env opts port =
     (case port of
        None \<Rightarrow> (Some (Errorf ''Port must not be nil'' []), port, opts)
      | Some p \<Rightarrow>
          if p = 0 then
            (let r = findAnyFreePort env (history opts);
                 o1 = record_event (EvFindAnyFreePort r) opts
             in case r of
                  Inl err \<Rightarrow> (Some err, port, o1)
                | Inr free \<Rightarrow> (None, Some free, o1))
          else
            (let r = expectPortToBeFree env (history opts) p;
                 o1 = record_event (EvExpectPortToBeFree p r) opts
             in case r of
                  Some err \<Rightarrow>
                    (Some (Errorf ''Port %v already in use. Please choose a different port or remove the --localport flag for a free port to be chosen automatically.'' [p]),
                     port, o1)
                | None \<Rightarrow> (None, port, o1)))"

section \<open>Minimum configuration and the confirmation\<close>

text \<open>
  \<open>confirmAttach\<close> is the last block of \<open>ensureMinimumSquashConfig\<close>, the one guarded
  by \<open>!o.Squash.Machine\<close>. The error of \<open>survey.AskOne\<close> is dropped there, so a failed
  prompt leaves \<open>confirmed\<close> false.
\<close>

definition confirmMessage :: "string \<Rightarrow> string \<Rightarrow> string" where
  "confirmMessage debugger podname =
     ''Going to attach '' @ debugger @ '' to pod '' @ podname @ ''. continue?''"

definition confirmAttach :: "env \<Rightarrow> Options \<Rightarrow> error option \<times> Options" where
  "confirmAttach env opts =
     (if \<not> Machine (Squash opts) then
        (case dt_Pod (DebugTarget opts) of
           None \<Rightarrow> (Some NilPointerPanic, opts)
         | Some p \<Rightarrow>
             (let msg = confirmMessage (Debugger (Squash opts)) (pod_Name p);
                  r = askConfirm env (history opts) msg;
                  o1 = record_event (EvConfirm msg r) opts;
                  confirmed = (case r of Inr b \<Rightarrow> b | Inl err \<Rightarrow> False)
              in if \<not> confirmed then (Some (New ''user aborted''), o1) else (None, o1)))
      else (None, opts))"

definition ensureMinimumSquashConfig :: "env \<Rightarrow> Options \<Rightarrow> error option \<times> Options" where
  "ensureMinimumSquashConfig env opts =
     (case chooseDebugger env opts of
        (Some err, o1) \<Rightarrow> (Some err, o1)
      | (None, o1) \<Rightarrow>
          (case GetMissing env o1 of
             (Some err, o2) \<Rightarrow> (Some err, o2)
           | (None, o2) \<Rightarrow>
               (case ensureLocalPort env o2 (Some (LocalPort (Squash o2))) of
                  (e, port, o3) \<Rightarrow>
                    (let o4 = (case port of
                                 Some p \<Rightarrow> o3\<lparr>Squash := (Squash o3)\<lparr>LocalPort := p\<rparr>\<rparr>
                               | None \<Rightarrow> o3)
                     in case e of
                          Some err \<Rightarrow> (Some err, o4)
                        | None \<Rightarrow> confirmAttach env o4))))"

section \<open>Secure mode\<close>

definition squashNotDeployed :: error where
  "squashNotDeployed =
     Errorf ''Squash must be deployed to the cluster to use secure mode. Either disable secure mode in your squash config file or deploy Squash to your cluster. You can deploy with 'squashctl agent deploy'.'' []"

definition ensureSquashIsInCluster :: "env \<Rightarrow> Options \<Rightarrow> error option \<times> Options" where
  "ensureSquashIsInCluster env opts =
     (let r = getNamespaces env (history opts);
          o1 = record_event (EvGetNamespaces r) opts
      in case r of
           Inl err \<Rightarrow> (Some err, o1)
         | Inr nsList \<Rightarrow>
             (let d = listSquashDeployments env (history o1) nsList;
                  o2 = record_event (EvListSquashDeployments nsList d) o1
              in case d of
                   Inl err \<Rightarrow> (Some err, o2)
                 | Inr squashDeployments \<Rightarrow>
                     if length squashDeployments = 0 then (Some squashNotDeployed, o2)
                     else (None, o2)))"

text \<open>
  The three loops of \<open>getCreatedPod\<close>. The Go map from pod name to pod is an association
  list with one entry for each key.
\<close>

fun makeLookup :: "pod list \<Rightarrow> (string \<times> pod) list \<Rightarrow> (string \<times> pod) list" where
  "makeLookup [] lookup = lookup"
| "makeLookup (p # rest) lookup = makeLookup rest (AList.update (pod_Name p) p lookup)"

fun removeInitial :: "pod list \<Rightarrow> (string \<times> pod) list \<Rightarrow> (string \<times> pod) list" where
  "removeInitial [] lookup = lookup"
| "removeInitial (p # rest) lookup = removeInitial rest (AList.delete (pod_Name p) lookup)"

fun countMatches :: "(string \<times> pod) list \<Rightarrow> int \<Rightarrow> pod \<Rightarrow> int \<times> pod" where
  "countMatches [] matchCount createdPod = (matchCount, createdPod)"
| "countMatches ((k, v) # rest) matchCount createdPod = countMatches rest (matchCount + 1) v"

definition expectedOnePod :: "int \<Rightarrow> error" where
  "expectedOnePod matchCount =
     Errorf ''Expected to find one newly created squash debug pod, found %v'' [matchCount]"

text \<open>\<open>createdPod\<close> is an out-parameter: its value on return is the second component.\<close>

definition getCreatedPod ::
  "env \<Rightarrow> Options \<Rightarrow> pod list \<Rightarrow> pod \<Rightarrow> error option \<times> pod \<times> Options" where
  "getCreatedPod env opts initialPods createdPod =
     (let r = listPods env (history opts) (Namespace (Squash opts)) (squashLabelSelectorString env);
          o1 = record_event (EvListPods (Namespace (Squash opts)) (squashLabelSelectorString env) r) opts
      in case r of
           Inl err \<Rightarrow> (Some err, createdPod, o1)
         | Inr currentPods \<Rightarrow>
             (let lookup = removeInitial initialPods (makeLookup currentPods [])
              in case countMatches (mapOrder env lookup) 0 createdPod of
                   (matchCount, created) \<Rightarrow>
                     if matchCount \<noteq> 1 then (Some (expectedOnePod matchCount), created, o1)
                     else (None, created, o1)))"

text \<open>
  \<open>runBaseCommandWithRbac\<close>. The value returned by \<open>uc.Attach\<close> is never read, so the
  call appears in the history without an answer. \<open>emptyPod\<close> is \<open>&core_v1.Pod{}\<close>.
\<close>

definition emptyPod :: pod where
  "emptyPod = \<lparr>pod_Name = [], pod_Containers = []\<rparr>"

definition runBaseCommandWithRbac :: "env \<Rightarrow> Options \<Rightarrow> error option \<times> Options" where
  "runBaseCommandWithRbac env opts =
     (case ensureSquashIsInCluster env opts of
        (Some err, o1) \<Rightarrow> (Some err, o1)
      | (None, o1) \<Rightarrow>
          (let u = newUserController env (history o1);
               o2 = record_event (EvNewUserController u) o1
           in case u of
                Some err \<Rightarrow> (Some err, o2)
              | None \<Rightarrow>
                  (let so = Squash o2;
                       dbge = DebugTarget o2;
                       daName = genDebugAttachmentName env (Pod so) (Container so);
                       r = listPods env (history o2) (Namespace (Squash o2)) (squashLabelSelectorString env);
                       o3 = record_event (EvListPods (Namespace (Squash o2)) (squashLabelSelectorString env) r) o2
                   in case r of
                        Inl err \<Rightarrow> (Some err, o3)
                      | Inr initialPods \<Rightarrow>
                          (case (dt_Container dbge, dt_Pod dbge) of
                             (Some c, Some p) \<Rightarrow>
                               (let o4 = record_event
                                           (EvAttach daName (Namespace so) (container_Image c) (pod_Name p)
                                              (Container so) [] (Debugger so)) o3;
                                    o5 = record_event (EvSleep 3) o4
                                in case getCreatedPod env o5 initialPods emptyPod of
                                     (Some err, createdPod, o6) \<Rightarrow> (Some err, o6)
                                   | (None, createdPod, o6) \<Rightarrow>
                                       (let e = reportOrConnect env (history o6) (Squash o6) createdPod
                                        in (e, record_event (EvReportOrConnect createdPod e) o6)))
                           | _ \<Rightarrow> (Some NilPointerPanic, o3)))))"

section \<open>The base command\<close>

definition runBaseCommand :: "env \<Rightarrow> Options \<Rightarrow> error option \<times> Options" where
  "runBaseCommand env opts =
     (case ensureMinimumSquashConfig env opts of
        (Some err, o1) \<Rightarrow> (Some err, o1)
      | (None, o1) \<Rightarrow>
          if secureMode o1 then
            (case runBaseCommandWithRbac env o1 of
               (Some err, o2) \<Rightarrow> (Some err, o2)
             | (None, o2) \<Rightarrow> (None, o2))
          else
            (let e = startDebugContainer env (history o1) (Squash o1) (DebugTarget o1)
             in (e, record_event (EvStartDebugContainer (Squash o1) (DebugTarget o1) e) o1)))"

section \<open>Vocabulary of the properties\<close>

text \<open>The pod names that are in the current listing and not in the one taken before.\<close>

definition createdNames :: "pod list \<Rightarrow> pod list \<Rightarrow> string set" where
  "createdNames before current = pod_Name ` set current - pod_Name ` set before"

text \<open>
  The calls made between two states, and the two phases they belong to: resolving the
  target, and attaching to it. Listing pods happens in both.
\<close>

definition emitted :: "Options \<Rightarrow> Options \<Rightarrow> event list" where
  "emitted before after = drop (length (history before)) (history after)"

fun isResolution :: "event \<Rightarrow> bool" where
  "isResolution (EvListNamespaces r) = True"
| "isResolution (EvListPods ns sel r) = True"
| "isResolution (EvSelect q os r) = True"
| "isResolution (EvGetDebugTargetPodFromSpec sq r) = True"
| "isResolution (EvGetDebugTargetContainerFromSpec sq r) = True"
| "isResolution (EvFindAnyFreePort r) = True"
| "isResolution (EvExpectPortToBeFree p r) = True"
| "isResolution ev = False"

fun isAttachment :: "event \<Rightarrow> bool" where
  "isAttachment (EvGetNamespaces r) = True"
| "isAttachment (EvListSquashDeployments nss r) = True"
| "isAttachment (EvNewUserController r) = True"
| "isAttachment (EvListPods ns sel r) = True"
| "isAttachment (EvAttach a b c d e f g) = True"
| "isAttachment (EvSleep n) = True"
| "isAttachment (EvReportOrConnect p r) = True"
| "isAttachment (EvStartDebugContainer sq dt r) = True"
| "isAttachment ev = False"

definition extends :: "(event \<Rightarrow> bool) \<Rightarrow> Options \<Rightarrow> Options \<Rightarrow> bool" where
  "extends P before after =
     (\<exists>evs. history after = history before @ evs \<and> list_all P evs)"

definition sameSettings :: "Options \<Rightarrow> Options \<Rightarrow> bool" where
  "sameSettings before after =
     (secureMode after = secureMode before \<and> Machine (Squash after) = Machine (Squash before))"

section \<open>An example cluster\<close>

text \<open>
  One user namespace with one pod of one container; the prompt picks the first option it is
  given, refusing an empty list and an empty value, and the confirmation is accepted.
\<close>

definition exampleContainer :: container where
  "exampleContainer = \<lparr>container_Name = ''app'', container_Image = ''repo/app:1.0''\<rparr>"

definition examplePod :: "string \<Rightarrow> pod" where
  "examplePod n = \<lparr>pod_Name = n, pod_Containers = [exampleContainer]\<rparr>"

definition exampleOptions :: Options where
  "exampleOptions =
     \<lparr>Squash = \<lparr>NoClean = False, ChooseDebugger = False, ChoosePod = False, TimeoutSeconds = 300,
                 DebugContainerVersion = ''v1'', DebugContainerRepo = ''repo'', LocalPort = 0,
                 Machine = False, Debugger = [], Namespace = [], Pod = [], Container = [],
                 CRISock = ''/var/run/dockershim.sock''\<rparr>,
      DebugTarget = \<lparr>dt_Pod = None, dt_Container = None\<rparr>,
      secureMode = False,
      history = []\<rparr>"

definition exampleEnv :: env where
  "exampleEnv =
     \<lparr>listNamespaces = (\<lambda>h. Inr [''kube-system'', ''squash'', ''ns1'']),
      listPods = (\<lambda>h ns sel. Inr [examplePod ''svc-1'']),
      askSelect = (\<lambda>h q os. case os of
                                [] \<Rightarrow> Inl (New ''no options'')
                              | c # rest \<Rightarrow> if c = [] then Inl (New ''Value is required'') else Inr c),
      askConfirm = (\<lambda>h msg. Inr True),
      getDebugTargetPodFromSpec = (\<lambda>h sq dt. if Pod sq = [] then Inl (New ''fetching pod'')
                                            else Inr (dt\<lparr>dt_Pod := Some (examplePod (Pod sq))\<rparr>)),
      getDebugTargetContainerFromSpec = (\<lambda>h sq dt. Inr (dt\<lparr>dt_Container := Some exampleContainer\<rparr>)),
      findAnyFreePort = (\<lambda>h. Inr 40000),
      expectPortToBeFree = (\<lambda>h p. None),
      getNamespaces = (\<lambda>h. Inr [''kube-system'', ''squash'', ''ns1'']),
      listSquashDeployments = (\<lambda>h nss. Inr [''squash'']),
      newUserController = (\<lambda>h. None),
      genDebugAttachmentName = (\<lambda>p c. p @ ''-'' @ c),
      reportOrConnect = (\<lambda>h sq p. None),
      startDebugContainer = (\<lambda>h sq dt. None),
      squashLabelSelectorString = ''squash=debug'',
      availableDebuggers = [''dlv'', ''gdb''],
      mapOrder = rev\<rparr>"

section \<open>Candidate filters, as the specification words them\<close>

text \<open>
  A namespace is offered unless it is the tool's own namespace or lies under the reserved
  prefix; a pod matches a container string when one of its containers has an image that
  starts with it.
\<close>

definition allowedNamespace :: "string \<Rightarrow> bool" where
  "allowedNamespace n = (n \<noteq> ''squash'' \<and> \<not> HasPrefix n ''kube-'')"

definition imagePrefixMatch :: "string \<Rightarrow> pod \<Rightarrow> bool" where
  "imagePrefixMatch c p = (\<exists>pc \<in> set (pod_Containers p). HasPrefix (container_Image pc) c)"

text \<open>A second pod for the examples, with two containers.\<close>

definition dbPod :: pod where
  "dbPod = \<lparr>pod_Name = ''db-1'',
            pod_Containers = [\<lparr>container_Name = ''db'', container_Image = ''repo/db:2.1''\<rparr>,
                              \<lparr>container_Name = ''sidecar'', container_Image = ''repo/proxy:0.3''\<rparr>]\<rparr>"

text \<open>
  A cluster with two user namespaces, a cluster without pods, and the example options in
  machine mode and with the namespace already resolved.
\<close>

definition twoNamespacesEnv :: env where
  "twoNamespacesEnv = exampleEnv\<lparr>listNamespaces := (\<lambda>h. Inr [''ns1'', ''ns2''])\<rparr>"

definition noPodsEnv :: env where
  "noPodsEnv = exampleEnv\<lparr>listPods := (\<lambda>h ns sel. Inr [])\<rparr>"

definition machineOptions :: Options where
  "machineOptions = exampleOptions\<lparr>Squash := (Squash exampleOptions)\<lparr>Machine := True\<rparr>\<rparr>"

definition nsOptions :: Options where
  "nsOptions = exampleOptions\<lparr>Squash := (Squash exampleOptions)\<lparr>Namespace := ''ns1''\<rparr>\<rparr>"

section \<open>What the cluster and the prompt are assumed to answer\<close>

text \<open>
  Kubernetes gives every namespace, pod and container a non-empty name; a prompt run with
  the \<open>survey.Required\<close> validator does not return an empty answer; the free-port scan,
  when it succeeds, returns a port, which is not 0.
\<close>

text \<open>A \<open>survey.Select\<close> prompt answers with one of the options it was given.\<close>

definition promptAnswersListed :: "env \<Rightarrow> bool" where
  "promptAnswersListed env = (\<forall>h q os c. askSelect env h q os = Inr c \<longrightarrow> c \<in> set os)"

definition podsEnv :: env where
  "podsEnv = exampleEnv\<lparr>listPods := (\<lambda>h ns sel. Inr [examplePod ''svc-1'', dbPod])\<rparr>"

definition namedPod :: "pod \<Rightarrow> bool" where
  "namedPod p = (pod_Name p \<noteq> [] \<and> (\<forall>c \<in> set (pod_Containers p). container_Name c \<noteq> []))"

definition wellFormedAnswers :: "env \<Rightarrow> bool" where
  "wellFormedAnswers env =
     ((\<forall>h items. listNamespaces env h = Inr items \<longrightarrow> [] \<notin> set items) \<and>
      (\<forall>h ns sel items. listPods env h ns sel = Inr items \<longrightarrow> (\<forall>p \<in> set items. namedPod p)) \<and>
      (\<forall>h q os c. askSelect env h q os = Inr c \<longrightarrow> c \<noteq> []) \<and>
      (\<forall>h sq dt dt' p. getDebugTargetPodFromSpec env h sq dt = Inr dt' \<longrightarrow>
                         dt_Pod dt' = Some p \<longrightarrow> namedPod p) \<and>
      (\<forall>h port. findAnyFreePort env h = Inr port \<longrightarrow> port \<noteq> 0))"

section \<open>Phases of the base command\<close>

text \<open>
  Predicates on events and on runs, used to state what happens before, at and after the
  attachment. \<open>secureAttachPrefix\<close> is the sequence of calls of the secure path up to and
  including the sleep.
\<close>

fun isAttach :: "event \<Rightarrow> bool" where
  "isAttach (EvAttach a b c d e f g) = True"
| "isAttach ev = False"

fun isStartDebugContainer :: "event \<Rightarrow> bool" where
  "isStartDebugContainer (EvStartDebugContainer sq dt r) = True"
| "isStartDebugContainer ev = False"

definition confirmedOrStopped :: "Options \<Rightarrow> error option \<Rightarrow> Options \<Rightarrow> event list \<Rightarrow> bool" where
  "confirmedOrStopped opts e opts' conf =
     (if Machine (Squash opts) then conf = []
      else (e \<noteq> None \<and> conf = []) \<or>
           (\<exists>p r. dt_Pod (DebugTarget opts') = Some p \<and>
              conf = [EvConfirm (confirmMessage (Debugger (Squash opts')) (pod_Name p)) r] \<and>
              (if r = Inr True then e = None else e = Some (New ''user aborted''))))"

fun isPrecheck :: "event \<Rightarrow> bool" where
  "isPrecheck (EvGetNamespaces r) = True"
| "isPrecheck (EvListSquashDeployments nss r) = True"
| "isPrecheck (EvNewUserController r) = True"
| "isPrecheck (EvListPods ns sel r) = True"
| "isPrecheck ev = False"

definition attachEvent :: "env \<Rightarrow> squash \<Rightarrow> container \<Rightarrow> pod \<Rightarrow> event" where
  "attachEvent env so c p =
     EvAttach (genDebugAttachmentName env (Pod so) (Container so)) (Namespace so)
       (container_Image c) (pod_Name p) (Container so) [] (Debugger so)"

definition stoppedBeforeAttach :: "Options \<Rightarrow> error option \<Rightarrow> Options \<Rightarrow> bool" where
  "stoppedBeforeAttach opts e opts' =
     (e \<noteq> None \<and>
      (\<exists>pre. history opts' = history opts @ pre \<and> list_all isPrecheck pre \<and>
         (\<forall>nss. EvListSquashDeployments nss (Inr []) \<in> set pre \<longrightarrow> e = Some squashNotDeployed)))"

definition secureAttachPrefix ::
  "env \<Rightarrow> Options \<Rightarrow> string list \<Rightarrow> deployment list \<Rightarrow> pod list \<Rightarrow> container \<Rightarrow> pod \<Rightarrow> event list" where
  "secureAttachPrefix env opts nss ds initialPods c p =
     [EvGetNamespaces (Inr nss), EvListSquashDeployments nss (Inr ds), EvNewUserController None,
      EvListPods (Namespace (Squash opts)) (squashLabelSelectorString env) (Inr initialPods),
      attachEvent env (Squash opts) c p, EvSleep 3]"

definition attachedAndDiffed :: "env \<Rightarrow> Options \<Rightarrow> error option \<Rightarrow> Options \<Rightarrow> bool" where
  "attachedAndDiffed env opts e opts' =
     (\<exists>nss ds initialPods c p.
        ds \<noteq> [] \<and> dt_Container (DebugTarget opts) = Some c \<and> dt_Pod (DebugTarget opts) = Some p \<and>
        (case getCreatedPod env
                (opts\<lparr>history := history opts @ secureAttachPrefix env opts nss ds initialPods c p\<rparr>)
                initialPods emptyPod of
           (Some err, created, o6) \<Rightarrow> e = Some err \<and> opts' = o6
         | (None, created, o6) \<Rightarrow>
             e = reportOrConnect env (history o6) (Squash o6) created \<and>
             opts' = record_event (EvReportOrConnect created e) o6))"

fun isConfirm :: "event \<Rightarrow> bool" where
  "isConfirm (EvConfirm msg r) = True"
| "isConfirm ev = False"

text \<open>
  The example options as they are after resolution, in machine mode and with secure mode on;
  and a cluster in which a second debug pod appears during the sleep.
\<close>

definition resolvedOptions :: Options where
  "resolvedOptions =
     \<lparr>Squash = \<lparr>NoClean = False, ChooseDebugger = False, ChoosePod = False, TimeoutSeconds = 300,
                 DebugContainerVersion = ''v1'', DebugContainerRepo = ''repo'', LocalPort = 40000,
                 Machine = True, Debugger = ''dlv'', Namespace = ''ns1'', Pod = ''svc-1'',
                 Container = ''app'', CRISock = ''/var/run/dockershim.sock''\<rparr>,
      DebugTarget = \<lparr>dt_Pod = Some (examplePod ''svc-1''), dt_Container = Some exampleContainer\<rparr>,
      secureMode = True,
      history = []\<rparr>"

definition debugPodsEnv :: env where
  "debugPodsEnv =
     exampleEnv\<lparr>listPods := (\<lambda>h ns sel.
        if EvSleep 3 \<in> set h then Inr [examplePod ''squash-dlv-1'', examplePod ''squash-dlv-2'']
        else Inr [examplePod ''squash-dlv-1''])\<rparr>"

section \<open>The history grows, and resolution leaves the mode settings alone\<close>

lemma record_event_simps [simp]:
  "history (record_event e opts) = history opts @ [e]"
  "Squash (record_event e opts) = Squash opts"
  "DebugTarget (record_event e opts) = DebugTarget opts"
  "secureMode (record_event e opts) = secureMode opts"
  by (simp_all add: record_event_def)

lemma extends_refl: "extends P opts opts"
  by (simp add: extends_def)

lemma extends_trans: "extends P a b \<Longrightarrow> extends P b c \<Longrightarrow> extends P a c"
  by (auto simp: extends_def)

lemma extends_emitted: "history after = history before @ evs \<Longrightarrow> emitted before after = evs"
  by (simp add: emitted_def)

lemma sameSettings_refl: "sameSettings a a"
  by (simp add: sameSettings_def)

lemma sameSettings_trans: "sameSettings a b \<Longrightarrow> sameSettings b c \<Longrightarrow> sameSettings a c"
  by (simp add: sameSettings_def)

lemma chooseDebugger_ext:
  "chooseDebugger env opts = (e, opts') \<Longrightarrow> extends isResolution opts opts' \<and> sameSettings opts opts'"
  by (auto simp: chooseDebugger_def detectLang_def Let_def extends_def sameSettings_def
           split: if_splits sum.splits)

lemma chooseAllowedNamespace_ext:
  "chooseAllowedNamespace env opts target q = (e, t, opts') \<Longrightarrow>
     extends isResolution opts opts' \<and> sameSettings opts opts'"
  by (auto simp: chooseAllowedNamespace_def Let_def extends_def sameSettings_def
           split: sum.splits list.splits)

lemma selectPod_ext:
  "selectPod c items opts = (e, opts') \<Longrightarrow> history opts' = history opts \<and> sameSettings opts opts'"
  by (auto simp: selectPod_def sameSettings_def split: option.splits)

lemma choosePod_ext:
  "choosePod env opts = (e, opts') \<Longrightarrow> extends isResolution opts opts' \<and> sameSettings opts opts'"
  by (auto simp: choosePod_def Let_def extends_def sameSettings_def
           split: sum.splits list.splits dest!: selectPod_ext)

lemma chooseContainer_ext:
  "chooseContainer env opts = (e, opts') \<Longrightarrow> extends isResolution opts opts' \<and> sameSettings opts opts'"
  by (auto simp: chooseContainer_def setContainer_def Let_def extends_def sameSettings_def
           split: sum.splits list.splits option.splits)

lemma resolveNamespace_ext:
  "resolveNamespace env opts = (e, opts') \<Longrightarrow> extends isResolution opts opts' \<and> sameSettings opts opts'"
  by (auto simp: resolveNamespace_def Let_def extends_def sameSettings_def
           split: if_splits option.splits prod.splits dest!: chooseAllowedNamespace_ext)

lemma resolvePod_ext:
  "resolvePod env opts = (e, opts') \<Longrightarrow> extends isResolution opts opts' \<and> sameSettings opts opts'"
  by (auto simp: resolvePod_def Let_def extends_def sameSettings_def
           split: if_splits option.splits prod.splits sum.splits dest!: choosePod_ext)

lemma resolveContainer_ext:
  "resolveContainer env opts = (e, opts') \<Longrightarrow> extends isResolution opts opts' \<and> sameSettings opts opts'"
  by (auto simp: resolveContainer_def Let_def extends_def sameSettings_def
           split: if_splits option.splits prod.splits sum.splits dest!: chooseContainer_ext)

lemma GetMissing_ext:
  "GetMissing env opts = (e, opts') \<Longrightarrow> extends isResolution opts opts' \<and> sameSettings opts opts'"
  unfolding GetMissing_def
  by (auto split: prod.splits option.splits
           dest!: resolveNamespace_ext resolvePod_ext resolveContainer_ext
           intro: extends_trans sameSettings_trans)

lemma ensureLocalPort_ext:
  "ensureLocalPort env opts port = (e, port', opts') \<Longrightarrow>
     extends isResolution opts opts' \<and> sameSettings opts opts'"
  by (auto simp: ensureLocalPort_def Let_def extends_def sameSettings_def
           split: if_splits option.splits sum.splits)

section \<open>The pod-set differ\<close>

lemma countMatches_eq:
  "countMatches xs n p = (n + int (length xs), if xs = [] then p else snd (last xs))"
  by (induction xs n p rule: countMatches.induct) auto

lemma makeLookup_distinct:
  "distinct (map fst m) \<Longrightarrow> distinct (map fst (makeLookup ps m))"
  by (induction ps m rule: makeLookup.induct) (auto simp: distinct_update)

lemma makeLookup_keys:
  "fst ` set (makeLookup ps m) = fst ` set m \<union> pod_Name ` set ps"
  by (induction ps m rule: makeLookup.induct) (auto simp: dom_update)

lemma makeLookup_entries:
  "distinct (map fst m) \<Longrightarrow> (k, v) \<in> set (makeLookup ps m) \<Longrightarrow> (k, v) \<in> set m \<or> (v \<in> set ps \<and> pod_Name v = k)"
proof (induction ps m rule: makeLookup.induct)
  case (1 lookup)
  then show ?case by simp
next
  case (2 p rest lookup)
  have d: "distinct (map fst (AList.update (pod_Name p) p lookup))"
    using 2(2) by (simp add: distinct_update)
  have m: "(k, v) \<in> set (makeLookup rest (AList.update (pod_Name p) p lookup))"
    using 2(3) by simp
  from 2(1)[OF d m] show ?case
  proof
    assume a: "(k, v) \<in> set (AList.update (pod_Name p) p lookup)"
    have "map_of (AList.update (pod_Name p) p lookup) k = Some v"
      using a d by simp
    then have "((map_of lookup)(pod_Name p \<mapsto> p)) k = Some v"
      by (simp add: update_conv')
    then show ?thesis
      by (auto split: if_splits dest: map_of_SomeD)
  qed auto
qed

lemma removeInitial_distinct:
  "distinct (map fst m) \<Longrightarrow> distinct (map fst (removeInitial ps m))"
  by (induction ps m rule: removeInitial.induct) (auto simp: distinct_delete)

lemma removeInitial_keys:
  "fst ` set (removeInitial ps m) = fst ` set m - pod_Name ` set ps"
proof (induction ps m rule: removeInitial.induct)
  case (1 lookup)
  then show ?case by simp
next
  case (2 p rest lookup)
  have "fst ` set (AList.delete (pod_Name p) lookup) = fst ` set lookup - {pod_Name p}"
    using delete_keys[of "pod_Name p" lookup] 
    by (metis list.set_map set_removeAll)
  with 2 show ?case by auto
qed

lemma removeInitial_subset: "set (removeInitial ps m) \<subseteq> set m"
  by (induction ps m rule: removeInitial.induct) (auto simp: AList.delete_eq)

lemma lookup_keys:
  "fst ` set (removeInitial before (makeLookup current [])) = createdNames before current"
  by (simp add: removeInitial_keys makeLookup_keys createdNames_def)

lemma lookup_distinct: "distinct (map fst (removeInitial before (makeLookup current [])))"
  by (simp add: removeInitial_distinct makeLookup_distinct)

lemma lookup_length:
  "length (removeInitial before (makeLookup current [])) = card (createdNames before current)"
proof -
  let ?l = "removeInitial before (makeLookup current [])"
  have "card (set (map fst ?l)) = length (map fst ?l)"
    using lookup_distinct by (rule distinct_card)
  then show ?thesis
    by (simp add: lookup_keys)
qed

lemma lookup_entry:
  assumes "(k, v) \<in> set (removeInitial before (makeLookup current []))"
  shows "v \<in> set current \<and> pod_Name v = k"
proof -
  have "(k, v) \<in> set (makeLookup current [])"
    using assms removeInitial_subset by blast
  then show ?thesis
    using makeLookup_entries[of "[]" k v current] by simp
qed

text \<open>
  C1. Given the listing taken before and a current listing that succeeds, \<open>getCreatedPod\<close>
  counts exactly the pod names that are in the current listing and not in the one before.
  It returns no error if and only if there is exactly one such name, and then the pod it
  hands back is the listed pod of that name; otherwise the error is the message
  \<open>Expected to find one newly created squash debug pod, found %v\<close> formatted with that
  count. This holds for every order in which the runtime may visit the map.
\<close>

theorem getCreatedPod_differ:
  assumes order: "\<forall>xs. mset (mapOrder env xs) = mset xs"
    and current: "listPods env (history opts) (Namespace (Squash opts)) (squashLabelSelectorString env) = Inr currentPods"
  shows "case getCreatedPod env opts initialPods createdPod of
           (e, created, opts') \<Rightarrow>
             (e = None \<longleftrightarrow> card (createdNames initialPods currentPods) = 1) \<and>
             (e = None \<longrightarrow> created \<in> set currentPods \<and> createdNames initialPods currentPods = {pod_Name created}) \<and>
             (e \<noteq> None \<longrightarrow>
                e = Some (Errorf ''Expected to find one newly created squash debug pod, found %v''
                           [int (card (createdNames initialPods currentPods))]))"
proof -
  let ?l = "removeInitial initialPods (makeLookup currentPods [])"
  let ?m = "mapOrder env ?l"
  let ?n = "card (createdNames initialPods currentPods)"
  have perm: "mset ?m = mset ?l"
    using order by blast
  have len: "length ?m = ?n"
    using perm lookup_length mset_eq_length by metis
  have cm: "countMatches ?m 0 createdPod = (int ?n, if ?m = [] then createdPod else snd (last ?m))"
    by (simp add: countMatches_eq len)
  have one: "?n = 1 \<Longrightarrow> snd (last ?m) \<in> set currentPods \<and> createdNames initialPods currentPods = {pod_Name (snd (last ?m))}"
  proof -
    assume n1: "?n = 1"
    then obtain kv where m: "?m = [kv]"
      using len by (metis One_nat_def length_0_conv length_Suc_conv)
    obtain k v where kv: "kv = (k, v)"
      by (cases kv)
    have "set ?l = set ?m"
      using perm by (metis mset_eq_setD)
    then have mem: "(k, v) \<in> set ?l"
      using m kv by simp
    have e: "v \<in> set currentPods \<and> pod_Name v = k"
      using mem by (rule lookup_entry)
    have "fst ` set ?l = {k}"
      using \<open>set ?l = set ?m\<close> m kv by simp
    then have "createdNames initialPods currentPods = {k}"
      by (simp add: lookup_keys)
    then show ?thesis
      using e m kv by simp
  qed
  have g: "getCreatedPod env opts initialPods createdPod =
      (if int ?n \<noteq> 1 then Some (expectedOnePod (int ?n)) else None,
       if ?m = [] then createdPod else snd (last ?m),
       record_event (EvListPods (Namespace (Squash opts)) (squashLabelSelectorString env) (Inr currentPods)) opts)"
    unfolding getCreatedPod_def Let_def current by (simp add: cm)
  have ne: "?n = 1 \<Longrightarrow> ?m \<noteq> []"
    using len by auto
  show ?thesis
    unfolding g using one ne by (simp add: expectedOnePod_def)
qed

theorem getCreatedPod_differ_witness:
  "(\<forall>xs. mset (mapOrder exampleEnv xs) = mset xs) \<and>
   (case getCreatedPod (exampleEnv\<lparr>listPods := (\<lambda>h ns sel. Inr [examplePod ''a'', examplePod ''b'', examplePod ''c''])\<rparr>)
           exampleOptions [examplePod ''a'', examplePod ''b''] emptyPod of
      (e, created, opts') \<Rightarrow> e = None \<and> created = examplePod ''c'') \<and>
   (case getCreatedPod (exampleEnv\<lparr>listPods := (\<lambda>h ns sel. Inr [examplePod ''a'', examplePod ''b''])\<rparr>)
           exampleOptions [examplePod ''a'', examplePod ''b''] emptyPod of
      (e, created, opts') \<Rightarrow>
        e = Some (Errorf ''Expected to find one newly created squash debug pod, found %v'' [0])) \<and>
   (case getCreatedPod (exampleEnv\<lparr>listPods := (\<lambda>h ns sel. Inr [examplePod ''a'', examplePod ''x'', examplePod ''y''])\<rparr>)
           exampleOptions [examplePod ''a''] emptyPod of
      (e, created, opts') \<Rightarrow>
        e = Some (Errorf ''Expected to find one newly created squash debug pod, found %v'' [2]))"
  (is "?A \<and> ?B \<and> ?C \<and> ?D")
proof -
  let ?abc = "[examplePod ''a'', examplePod ''b'', examplePod ''c'']"
  let ?ab = "[examplePod ''a'', examplePod ''b'']"
  let ?axy = "[examplePod ''a'', examplePod ''x'', examplePod ''y'']"
  let ?E = "\<lambda>ps. exampleEnv\<lparr>listPods := (\<lambda>h ns sel. Inr ps)\<rparr>"
  have order: "\<And>ps. \<forall>xs. mset (mapOrder (?E ps) xs) = mset xs"
    by (simp add: exampleEnv_def)
  have lst: "\<And>ps. listPods (?E ps) (history exampleOptions) (Namespace (Squash exampleOptions))
                    (squashLabelSelectorString (?E ps)) = Inr ps"
    by simp
  have c1: "createdNames ?ab ?abc = {''c''}"
    by (simp add: createdNames_def examplePod_def)
  have c0: "createdNames ?ab ?ab = {}"
    by (simp add: createdNames_def examplePod_def)
  have c2: "createdNames [examplePod ''a''] ?axy = {''x'', ''y''}"
    by (simp add: createdNames_def examplePod_def)
  have a: ?A
    by (simp add: exampleEnv_def)
  have b: ?B
  proof -
    obtain e c o' where g: "getCreatedPod (?E ?abc) exampleOptions ?ab emptyPod = (e, c, o')"
      by (metis prod_cases3)
    have "e = None \<and> c \<in> set ?abc \<and> {''c''} = {pod_Name c}"
      using getCreatedPod_differ [where env = "?E ?abc" and opts = exampleOptions and currentPods = ?abc
            and initialPods = ?ab and createdPod = emptyPod, OF order lst] g
      by (auto simp: c1)
    then have "e = None \<and> c = examplePod ''c''"
      by (auto simp: examplePod_def)
    then show ?thesis
      by (simp add: g)
  qed
  have c: ?C
  proof -
    obtain e c o' where g: "getCreatedPod (?E ?ab) exampleOptions ?ab emptyPod = (e, c, o')"
      by (metis prod_cases3)
    have "e = Some (Errorf ''Expected to find one newly created squash debug pod, found %v'' [0])"
      using getCreatedPod_differ [where env = "?E ?ab" and opts = exampleOptions and currentPods = ?ab
            and initialPods = ?ab and createdPod = emptyPod, OF order lst] g
      by (simp add: c0)
    then show ?thesis
      by (simp add: g)
  qed
  have d: ?D
  proof -
    obtain e c o' where g: "getCreatedPod (?E ?axy) exampleOptions [examplePod ''a''] emptyPod = (e, c, o')"
      by (metis prod_cases3)
    have "e = Some (Errorf ''Expected to find one newly created squash debug pod, found %v'' [2])"
      using getCreatedPod_differ [where env = "?E ?axy" and opts = exampleOptions and currentPods = ?axy
            and initialPods = "[examplePod ''a'']" and createdPod = emptyPod, OF order lst] g
      by (simp add: c2)
    then show ?thesis
      by (simp add: g)
  qed
  show ?thesis
    using a b c d by (intro conjI)
qed

section \<open>Namespace candidates\<close>

lemma HasPrefix_iff: "HasPrefix s p \<longleftrightarrow> (\<exists>t. s = p @ t)"
proof
  assume "HasPrefix s p"
  then have "take (length p) s = p"
    by (simp add: HasPrefix_def)
  then have "s = p @ drop (length p) s"
    by (metis append_take_drop_id)
  then show "\<exists>t. s = p @ t" ..
next
  assume "\<exists>t. s = p @ t"
  then show "HasPrefix s p"
    by (auto simp: HasPrefix_def)
qed

lemma namespaceNames_eq: "namespaceNames items acc = acc @ filter allowedNamespace items"
  by (induction items acc rule: namespaceNames.induct) (simp_all add: allowedNamespace_def)

lemma chooseAllowedNamespace_run:
  assumes "listNamespaces env (history opts) = Inr items"
  shows "chooseAllowedNamespace env opts target question =
     (case namespaceNames items [] of
        [] \<Rightarrow> (Some (New ''no namespaces available!''), target, record_event (EvListNamespaces (Inr items)) opts)
      | [n] \<Rightarrow> (None, n, record_event (EvListNamespaces (Inr items)) opts)
      | names \<Rightarrow>
         (let o1 = record_event (EvListNamespaces (Inr items)) opts;
              q = askSelect env (history o1) question names;
              o2 = record_event (EvSelect question names q) o1
          in case q of Inl err \<Rightarrow> (Some err, target, o2) | Inr choice \<Rightarrow> (None, choice, o2)))"
  by (simp add: chooseAllowedNamespace_def assms Let_def split: list.splits sum.splits)

text \<open>
  C9. When the namespace is unresolved and the listing succeeds, the candidates are exactly
  the listed namespaces other than \<open>squash\<close> that do not start with \<open>kube-\<close>, in
  listing order: neither the tool's namespace nor a namespace under the reserved prefix is
  among them, any prompt offers exactly this list, and when the list is empty the function
  returns the error \<open>no namespaces available!\<close> after the listing call alone.
\<close>

theorem chooseAllowedNamespace_candidates:
  assumes items: "listNamespaces env (history opts) = Inr items"
    and run: "chooseAllowedNamespace env opts target question = (e, target', opts')"
  shows "namespaceNames items [] = filter allowedNamespace items \<and>
         ''squash'' \<notin> set (namespaceNames items []) \<and>
         (\<forall>n \<in> set (namespaceNames items []). \<not> HasPrefix n ''kube-'') \<and>
         (\<forall>q os r. EvSelect q os r \<in> set (emitted opts opts') \<longrightarrow> os = namespaceNames items []) \<and>
         (namespaceNames items [] = [] \<longrightarrow>
            e = Some (New ''no namespaces available!'') \<and>
            emitted opts opts' = [EvListNamespaces (Inr items)])"
proof -
  have f: "namespaceNames items [] = filter allowedNamespace items"
    by (simp add: namespaceNames_eq)
  have a: "''squash'' \<notin> set (namespaceNames items [])"
    unfolding f by (simp add: allowedNamespace_def)
  have b: "\<forall>n \<in> set (namespaceNames items []). \<not> HasPrefix n ''kube-''"
    unfolding f by (simp add: allowedNamespace_def)
  have c: "\<forall>q os r. EvSelect q os r \<in> set (emitted opts opts') \<longrightarrow> os = namespaceNames items []"
    using run unfolding chooseAllowedNamespace_run [OF items]
    by (auto simp: emitted_def Let_def split: list.splits sum.splits)
  have d: "namespaceNames items [] = [] \<longrightarrow>
            e = Some (New ''no namespaces available!'') \<and>
            emitted opts opts' = [EvListNamespaces (Inr items)]"
    using run unfolding chooseAllowedNamespace_run [OF items]
    by (auto simp: emitted_def)
  show ?thesis
    using f a b c d by (intro conjI)
qed

theorem chooseAllowedNamespace_candidates_witness:
  "namespaceNames [''kube-system'', ''squash''] [] = [] \<and>
   fst (chooseAllowedNamespace
          (exampleEnv\<lparr>listNamespaces := (\<lambda>h. Inr [''kube-system'', ''squash''])\<rparr>)
          exampleOptions [] ''Select a namespace to debug'') = Some (New ''no namespaces available!'') \<and>
   namespaceNames [''kube-system'', ''ns1'', ''squash'', ''ns2''] [] = [''ns1'', ''ns2''] \<and>
   EvSelect ''Select a namespace to debug'' [''ns1'', ''ns2''] (Inr ''ns1'')
     \<in> set (emitted exampleOptions
               (snd (snd (chooseAllowedNamespace
                            (exampleEnv\<lparr>listNamespaces := (\<lambda>h. Inr [''kube-system'', ''ns1'', ''squash'', ''ns2''])\<rparr>)
                            exampleOptions [] ''Select a namespace to debug''))))"
  (is "?A \<and> ?B \<and> ?C \<and> ?D")
proof -
  let ?E = "\<lambda>nss. exampleEnv\<lparr>listNamespaces := (\<lambda>h. Inr nss)\<rparr>"
  let ?q = "''Select a namespace to debug''"
  let ?R = "\<lambda>nss. chooseAllowedNamespace (?E nss) exampleOptions [] ?q"
  have items: "\<And>nss. listNamespaces (?E nss) (history exampleOptions) = Inr nss"
    by simp
  have run: "\<And>nss. ?R nss = (fst (?R nss), fst (snd (?R nss)), snd (snd (?R nss)))"
    by simp
  have a: ?A
    by (simp add: HasPrefix_def)
  have c: ?C
    by (simp add: HasPrefix_def)
  have b: ?B
    using chooseAllowedNamespace_candidates [OF items run, of "[''kube-system'', ''squash'']"] a
    by simp
  have d: ?D
    using chooseAllowedNamespace_candidates [OF items run, of "[''kube-system'', ''ns1'', ''squash'', ''ns2'']"] c
    by (simp add: chooseAllowedNamespace_def exampleEnv_def exampleOptions_def emitted_def Let_def)
  show ?thesis
    using a b c d by (intro conjI)
qed

section \<open>Pod candidates\<close>

lemma appendIfImageMatches_eq:
  "appendIfImageMatches c name cs acc =
     (if \<exists>pc \<in> set cs. HasPrefix (container_Image pc) c then acc @ [name] else acc)"
  by (induction c name cs acc rule: appendIfImageMatches.induct) auto

lemma podNames_eq:
  "podNames sq items acc =
     acc @ map pod_Name
             (filter (\<lambda>p. ChoosePod sq \<or> Container sq = [] \<or> imagePrefixMatch (Container sq) p) items)"
  by (induction sq items acc rule: podNames.induct)
     (auto simp: appendIfImageMatches_eq imagePrefixMatch_def)

lemma findPod_listed: "n \<in> pod_Name ` set items \<Longrightarrow> \<exists>p \<in> set items. findPod n items = Some p \<and> pod_Name p = n"
  by (induction items) auto

lemma choosePod_run:
  assumes "listPods env (history opts) (Namespace (Squash opts)) [] = Inr items"
  shows "choosePod env opts =
     (let o1 = record_event (EvListPods (Namespace (Squash opts)) [] (Inr items)) opts
      in case podNames (Squash opts) items [] of
           [n] \<Rightarrow> selectPod n items o1
         | podName \<Rightarrow>
             (let q = askSelect env (history o1) ''Select a pod'' podName;
                  o2 = record_event (EvSelect ''Select a pod'' podName q) o1
              in case q of Inl err \<Rightarrow> (Some err, o2) | Inr choice \<Rightarrow> selectPod choice items o2))"
  by (simp add: choosePod_def assms Let_def split: list.splits sum.splits)

text \<open>
  C7. When the pod is unresolved and the listing of the resolved namespace succeeds: if the
  container option is non-empty and the choose-pod override is off, the candidates are
  exactly the names of the listed pods that have a container whose image starts with the
  container string; if the override is on or the container option is empty, every listed
  pod is a candidate. Any prompt offers exactly the candidates, and a single candidate is
  selected without a prompt.
\<close>

theorem choosePod_candidates:
  assumes items: "listPods env (history opts) (Namespace (Squash opts)) [] = Inr items"
    and run: "choosePod env opts = (e, opts')"
  shows "(Container (Squash opts) \<noteq> [] \<and> \<not> ChoosePod (Squash opts) \<longrightarrow>
            podNames (Squash opts) items [] =
              map pod_Name (filter (imagePrefixMatch (Container (Squash opts))) items)) \<and>
         (ChoosePod (Squash opts) \<or> Container (Squash opts) = [] \<longrightarrow>
            podNames (Squash opts) items [] = map pod_Name items) \<and>
         (\<forall>q os r. EvSelect q os r \<in> set (emitted opts opts') \<longrightarrow>
            os = podNames (Squash opts) items []) \<and>
         (\<forall>n. podNames (Squash opts) items [] = [n] \<longrightarrow> e = None \<and> Pod (Squash opts') = n)"
proof -
  have a: "Container (Squash opts) \<noteq> [] \<and> \<not> ChoosePod (Squash opts) \<longrightarrow>
            podNames (Squash opts) items [] =
              map pod_Name (filter (imagePrefixMatch (Container (Squash opts))) items)"
    by (simp add: podNames_eq)
  have b: "ChoosePod (Squash opts) \<or> Container (Squash opts) = [] \<longrightarrow>
            podNames (Squash opts) items [] = map pod_Name items"
    by (auto simp: podNames_eq)
  have c: "\<forall>q os r. EvSelect q os r \<in> set (emitted opts opts') \<longrightarrow>
            os = podNames (Squash opts) items []"
    using run unfolding choosePod_run [OF items]
    by (auto simp: emitted_def Let_def selectPod_def split: list.splits sum.splits option.splits)
  have d: "\<forall>n. podNames (Squash opts) items [] = [n] \<longrightarrow> e = None \<and> Pod (Squash opts') = n"
  proof (intro allI impI)
    fix n
    assume n: "podNames (Squash opts) items [] = [n]"
    then have "n \<in> set (podNames (Squash opts) items [])"
      by simp
    then have "n \<in> pod_Name ` set items"
      unfolding podNames_eq by auto
    then obtain p where "findPod n items = Some p" "pod_Name p = n"
      using findPod_listed by blast
    then show "e = None \<and> Pod (Squash opts') = n"
      using run unfolding choosePod_run [OF items]
      by (auto simp: n Let_def selectPod_def)
  qed
  show ?thesis
    using a b c d by (intro conjI)
qed

theorem choosePod_candidates_witness:
  "podNames ((Squash exampleOptions)\<lparr>Container := ''repo/app''\<rparr>) [examplePod ''svc-1'', dbPod] [] = [''svc-1''] \<and>
   (case choosePod (exampleEnv\<lparr>listPods := (\<lambda>h ns sel. Inr [examplePod ''svc-1'', dbPod])\<rparr>)
           (exampleOptions\<lparr>Squash := (Squash exampleOptions)\<lparr>Container := ''repo/app''\<rparr>\<rparr>) of
      (e, opts') \<Rightarrow> e = None \<and> Pod (Squash opts') = ''svc-1'') \<and>
   podNames (Squash exampleOptions) [examplePod ''svc-1'', dbPod] [] = [''svc-1'', ''db-1''] \<and>
   EvSelect ''Select a pod'' [''svc-1'', ''db-1''] (Inr ''svc-1'')
     \<in> set (emitted exampleOptions
               (snd (choosePod (exampleEnv\<lparr>listPods := (\<lambda>h ns sel. Inr [examplePod ''svc-1'', dbPod])\<rparr>)
                       exampleOptions)))"
  (is "?A \<and> ?B \<and> ?C \<and> ?D")
proof -
  let ?E = "exampleEnv\<lparr>listPods := (\<lambda>h ns sel. Inr [examplePod ''svc-1'', dbPod])\<rparr>"
  let ?o1 = "exampleOptions\<lparr>Squash := (Squash exampleOptions)\<lparr>Container := ''repo/app''\<rparr>\<rparr>"
  have items: "\<And>opts. listPods ?E (history opts) (Namespace (Squash opts)) [] = Inr [examplePod ''svc-1'', dbPod]"
    by simp
  have run: "\<And>opts. choosePod ?E opts = (fst (choosePod ?E opts), snd (choosePod ?E opts))"
    by simp
  have a: ?A
    by (simp add: HasPrefix_def examplePod_def exampleContainer_def dbPod_def exampleOptions_def)
  have c: ?C
    by (simp add: examplePod_def dbPod_def exampleOptions_def)
  have "fst (choosePod ?E ?o1) = None \<and> Pod (Squash (snd (choosePod ?E ?o1))) = ''svc-1''"
    using choosePod_candidates [OF items run, of ?o1] a
    by simp
  then have b: ?B
    by (simp add: case_prod_beta)
  have d: ?D
    using choosePod_candidates [OF items run, of exampleOptions] c
    by (simp add: choosePod_def selectPod_def exampleEnv_def exampleOptions_def examplePod_def dbPod_def
          emitted_def Let_def)
  show ?thesis
    using a b c d by (intro conjI)
qed

section \<open>Two or more candidates\<close>

lemma containerNames_eq: "containerNames cs acc = acc @ map container_Name cs"
  by (induction cs acc rule: containerNames.induct) simp_all

lemma findContainer_listed:
  "n \<in> container_Name ` set cs \<Longrightarrow> \<exists>c \<in> set cs. findContainer n cs = Some c \<and> container_Name c = n"
  by (induction cs) auto

lemma findContainer_unlisted: "n \<notin> container_Name ` set cs \<Longrightarrow> findContainer n cs = None"
  by (induction cs) auto

lemma findPod_unlisted: "n \<notin> pod_Name ` set items \<Longrightarrow> findPod n items = None"
  by (induction items) auto

lemma two_or_more: "2 \<le> length xs \<Longrightarrow> \<exists>a b rest. xs = a # b # rest"
  by (cases xs; cases "tl xs") auto

lemma namespace_prompts_once:
  assumes items: "listNamespaces env (history opts) = Inr items"
    and many: "2 \<le> length (namespaceNames items [])"
    and run: "chooseAllowedNamespace env opts target question = (e, target', opts')"
  shows "\<exists>r. emitted opts opts' =
              [EvListNamespaces (Inr items), EvSelect question (namespaceNames items []) r] \<and>
             (\<forall>err. r = Inl err \<longrightarrow> e = Some err) \<and>
             (\<forall>c. r = Inr c \<longrightarrow> e = None \<and> target' = c)"
proof -
  obtain a b rest where "namespaceNames items [] = a # b # rest"
    using two_or_more [OF many] by blast
  then show ?thesis
    using run unfolding chooseAllowedNamespace_run [OF items]
    by (auto simp: emitted_def Let_def split: sum.splits)
qed

lemma pod_prompts_once:
  assumes items: "listPods env (history opts) (Namespace (Squash opts)) [] = Inr items"
    and many: "2 \<le> length (podNames (Squash opts) items [])"
    and run: "choosePod env opts = (e, opts')"
  shows "\<exists>r. emitted opts opts' =
              [EvListPods (Namespace (Squash opts)) [] (Inr items),
               EvSelect ''Select a pod'' (podNames (Squash opts) items []) r] \<and>
             (\<forall>err. r = Inl err \<longrightarrow> e = Some err) \<and>
             (\<forall>c. r = Inr c \<and> c \<in> set (podNames (Squash opts) items []) \<longrightarrow>
                e = None \<and> Pod (Squash opts') = c \<and>
                (\<exists>p \<in> set items. pod_Name p = c \<and> dt_Pod (DebugTarget opts') = Some p)) \<and>
             (\<forall>c. r = Inr c \<and> c \<notin> pod_Name ` set items \<longrightarrow> e = Some (New ''pod not found''))"
proof -
  obtain a b rest where ab: "podNames (Squash opts) items [] = a # b # rest"
    using two_or_more [OF many] by blast
  let ?o1 = "record_event (EvListPods (Namespace (Squash opts)) [] (Inr items)) opts"
  let ?r = "askSelect env (history ?o1) ''Select a pod'' (a # b # rest)"
  let ?o2 = "record_event (EvSelect ''Select a pod'' (a # b # rest) ?r) ?o1"
  have g: "(e, opts') = (case ?r of Inl err \<Rightarrow> (Some err, ?o2) | Inr choice \<Rightarrow> selectPod choice items ?o2)"
    using run unfolding choosePod_run [OF items] by (simp add: ab Let_def)
  have h: "history opts' = history ?o2"
    using g by (auto simp: selectPod_def split: sum.splits option.splits)
  have em: "emitted opts opts' =
      [EvListPods (Namespace (Squash opts)) [] (Inr items), EvSelect ''Select a pod'' (a # b # rest) ?r]"
    by (simp add: emitted_def h)
  have er: "\<forall>err. ?r = Inl err \<longrightarrow> e = Some err"
    using g by auto
  have ok: "\<forall>c. ?r = Inr c \<and> c \<in> set (a # b # rest) \<longrightarrow>
                e = None \<and> Pod (Squash opts') = c \<and>
                (\<exists>p \<in> set items. pod_Name p = c \<and> dt_Pod (DebugTarget opts') = Some p)"
  proof (intro allI impI)
    fix c
    assume c: "?r = Inr c \<and> c \<in> set (a # b # rest)"
    then have "c \<in> set (podNames (Squash opts) items [])"
      by (simp add: ab)
    then have "c \<in> pod_Name ` set items"
      unfolding podNames_eq by auto
    then obtain p where p: "p \<in> set items" "findPod c items = Some p" "pod_Name p = c"
      using findPod_listed by blast
    have "(e, opts') = selectPod c items ?o2"
      using g c by simp
    then show "e = None \<and> Pod (Squash opts') = c \<and>
                (\<exists>p \<in> set items. pod_Name p = c \<and> dt_Pod (DebugTarget opts') = Some p)"
      using p by (auto simp: selectPod_def)
  qed
  have no: "\<forall>c. ?r = Inr c \<and> c \<notin> pod_Name ` set items \<longrightarrow> e = Some (New ''pod not found'')"
    using g findPod_unlisted by (auto simp: selectPod_def)
  show ?thesis
    using em er ok no unfolding ab by blast
qed

lemma container_prompts_once:
  assumes pod: "dt_Pod (DebugTarget opts) = Some p"
    and many: "2 \<le> length (pod_Containers p)"
    and run: "chooseContainer env opts = (e, opts')"
  shows "\<exists>r. emitted opts opts' =
              [EvSelect ''Select a container'' (map container_Name (pod_Containers p)) r] \<and>
             (\<forall>err. r = Inl err \<longrightarrow> e = Some err) \<and>
             (\<forall>c. r = Inr c \<and> c \<in> set (map container_Name (pod_Containers p)) \<longrightarrow>
                e = None \<and> Container (Squash opts') = c \<and>
                (\<exists>ct \<in> set (pod_Containers p).
                   container_Name ct = c \<and> dt_Container (DebugTarget opts') = Some ct)) \<and>
             (\<forall>c. r = Inr c \<and> c \<notin> set (map container_Name (pod_Containers p)) \<longrightarrow>
                e = Some (New ''selected container not found''))"
proof -
  obtain a b rest where ab: "pod_Containers p = a # b # rest"
    using two_or_more [OF many] by blast
  let ?names = "map container_Name (pod_Containers p)"
  let ?r = "askSelect env (history opts) ''Select a container'' ?names"
  let ?o1 = "record_event (EvSelect ''Select a container'' ?names ?r) opts"
  have g: "(e, opts') =
      (case ?r of Inl err \<Rightarrow> (Some err, ?o1)
       | Inr choice \<Rightarrow>
           (case findContainer choice (pod_Containers p) of
              Some c \<Rightarrow> (None, setContainer c ?o1)
            | None \<Rightarrow> (Some (New ''selected container not found''), ?o1)))"
    using run by (simp add: chooseContainer_def pod ab Let_def containerNames_eq cong: sum.case_cong option.case_cong)
  have h: "history opts' = history ?o1"
    using g by (auto simp: setContainer_def split: sum.splits option.splits)
  have em: "emitted opts opts' = [EvSelect ''Select a container'' ?names ?r]"
    by (simp add: emitted_def h)
  have er: "\<forall>err. ?r = Inl err \<longrightarrow> e = Some err"
    using g by auto
  have ok: "\<forall>c. ?r = Inr c \<and> c \<in> set ?names \<longrightarrow>
                e = None \<and> Container (Squash opts') = c \<and>
                (\<exists>ct \<in> set (pod_Containers p).
                   container_Name ct = c \<and> dt_Container (DebugTarget opts') = Some ct)"
  proof (intro allI impI)
    fix c
    assume c: "?r = Inr c \<and> c \<in> set ?names"
    then have "c \<in> container_Name ` set (pod_Containers p)"
      by simp
    then obtain ct where ct: "ct \<in> set (pod_Containers p)" "findContainer c (pod_Containers p) = Some ct"
        "container_Name ct = c"
      using findContainer_listed by blast
    have "(e, opts') = (None, setContainer ct ?o1)"
      using g c ct by simp
    then show "e = None \<and> Container (Squash opts') = c \<and>
                (\<exists>ct \<in> set (pod_Containers p).
                   container_Name ct = c \<and> dt_Container (DebugTarget opts') = Some ct)"
      using ct by (auto simp: setContainer_def)
  qed
  have no: "\<forall>c. ?r = Inr c \<and> c \<notin> set ?names \<longrightarrow> e = Some (New ''selected container not found'')"
    using g findContainer_unlisted by auto
  show ?thesis
    using em er ok no by blast
qed

section \<open>No candidate\<close>

text \<open>
  C4. With no pod in the resolved namespace \<open>choosePod\<close> has no candidate, and it has no
  branch for that: it calls the prompt with an empty list of options and returns whatever
  error the prompt gives. \<open>chooseContainer\<close> on a pod without containers returns its own
  error without a prompt, as \<open>chooseAllowedNamespace\<close> does on an empty candidate list.
\<close>

theorem choosePod_no_candidates_prompts:
  "podNames (Squash nsOptions) [] [] = [] \<and>
   choosePod noPodsEnv nsOptions =
     (Some (New ''no options''),
      nsOptions\<lparr>history :=
        [EvListPods ''ns1'' [] (Inr []),
         EvSelect ''Select a pod'' [] (Inl (New ''no options''))]\<rparr>) \<and>
   chooseContainer exampleEnv
       (nsOptions\<lparr>DebugTarget := \<lparr>dt_Pod = Some \<lparr>pod_Name = ''svc-1'', pod_Containers = []\<rparr>,
                                   dt_Container = None\<rparr>\<rparr>) =
     (Some (New ''no container to choose from''),
      nsOptions\<lparr>DebugTarget := \<lparr>dt_Pod = Some \<lparr>pod_Name = ''svc-1'', pod_Containers = []\<rparr>,
                                  dt_Container = None\<rparr>\<rparr>)"
  by (simp add: noPodsEnv_def nsOptions_def exampleOptions_def exampleEnv_def choosePod_def
        chooseContainer_def record_event_def Let_def)

section \<open>Evaluating the example\<close>

lemma exampleEnv_fields:
  "listNamespaces exampleEnv h = Inr [''kube-system'', ''squash'', ''ns1'']"
  "listPods exampleEnv h ns sel = Inr [examplePod ''svc-1'']"
  "askSelect exampleEnv h q os =
     (case os of [] \<Rightarrow> Inl (New ''no options'')
      | c # rest \<Rightarrow> if c = [] then Inl (New ''Value is required'') else Inr c)"
  "askConfirm exampleEnv h msg = Inr True"
  "getDebugTargetPodFromSpec exampleEnv h sq dt =
     (if Pod sq = [] then Inl (New ''fetching pod'')
      else Inr (dt\<lparr>dt_Pod := Some (examplePod (Pod sq))\<rparr>))"
  "getDebugTargetContainerFromSpec exampleEnv h sq dt = Inr (dt\<lparr>dt_Container := Some exampleContainer\<rparr>)"
  "findAnyFreePort exampleEnv h = Inr 40000"
  "expectPortToBeFree exampleEnv h port = None"
  "getNamespaces exampleEnv h = Inr [''kube-system'', ''squash'', ''ns1'']"
  "listSquashDeployments exampleEnv h nss = Inr [''squash'']"
  "newUserController exampleEnv h = None"
  "genDebugAttachmentName exampleEnv pn cn = pn @ ''-'' @ cn"
  "reportOrConnect exampleEnv h sq created = None"
  "startDebugContainer exampleEnv h sq dt = None"
  "squashLabelSelectorString exampleEnv = ''squash=debug''"
  "availableDebuggers exampleEnv = [''dlv'', ''gdb'']"
  "mapOrder exampleEnv = rev"
  by (simp_all add: exampleEnv_def)

lemmas run_defs =
  ensureMinimumSquashConfig_def chooseDebugger_def detectLang_def GetMissing_def
  resolveNamespace_def chooseAllowedNamespace_def resolvePod_def choosePod_def selectPod_def
  resolveContainer_def chooseContainer_def setContainer_def ensureLocalPort_def
  confirmAttach_def confirmMessage_def record_event_def HasPrefix_def Let_def
  exampleEnv_fields exampleOptions_def examplePod_def exampleContainer_def

section \<open>What a successful resolution leaves in the options\<close>

lemma chooseDebugger_set:
  assumes "wellFormedAnswers env" "chooseDebugger env opts = (None, opts')"
  shows "Debugger (Squash opts') \<noteq> []"
  using assms
  by (auto simp: chooseDebugger_def detectLang_def Let_def wellFormedAnswers_def
           split: if_splits sum.splits)

lemma namespaceNames_subset: "set (namespaceNames items []) \<subseteq> set items"
  by (simp add: namespaceNames_eq)

lemma resolveNamespace_set:
  assumes wf: "wellFormedAnswers env" and run: "resolveNamespace env opts = (None, opts')"
  shows "Namespace (Squash opts') \<noteq> [] \<and> Debugger (Squash opts') = Debugger (Squash opts)"
proof (cases "Namespace (Squash opts) = []")
  case False
  then show ?thesis
    using run by (simp add: resolveNamespace_def)
next
  case True
  obtain e t o1 where c: "chooseAllowedNamespace env opts [] ''Select a namespace to debug'' = (e, t, o1)"
    by (metis prod_cases3)
  have e: "e = None" and o': "opts' = o1\<lparr>Squash := (Squash o1)\<lparr>Namespace := t\<rparr>\<rparr>"
    using run True c by (auto simp: resolveNamespace_def Let_def split: option.splits)
  have sq: "Squash o1 = Squash opts"
    using c by (auto simp: chooseAllowedNamespace_def Let_def split: sum.splits list.splits)
  have "t \<noteq> []"
  proof (cases "listNamespaces env (history opts)")
    case (Inl err)
    then show ?thesis
      using c e by (simp add: chooseAllowedNamespace_def Let_def)
  next
    case (Inr items)
    have noempty: "[] \<notin> set items"
      using wf Inr by (auto simp: wellFormedAnswers_def)
    have sel: "\<And>h q os c. askSelect env h q os = Inr c \<Longrightarrow> c \<noteq> []"
      using wf by (auto simp: wellFormedAnswers_def)
    show ?thesis
    proof (cases "namespaceNames items []")
      case Nil
      then show ?thesis
        using c e unfolding chooseAllowedNamespace_run [OF Inr] by simp
    next
      case (Cons n rest)
      have n: "n \<noteq> []"
        using namespaceNames_subset [of items] noempty Cons by auto
      show ?thesis
        using c e n sel unfolding chooseAllowedNamespace_run [OF Inr] Cons
        by (cases rest) (auto simp: Let_def split: sum.splits)
    qed
  qed
  then show ?thesis
    by (simp add: o' sq)
qed

lemma selectPod_set:
  assumes "selectPod c items opts = (None, opts')"
  shows "\<exists>p \<in> set items. pod_Name p = c \<and> dt_Pod (DebugTarget opts') = Some p \<and>
           Squash opts' = (Squash opts)\<lparr>Pod := c\<rparr>"
proof -
  obtain p where p: "findPod c items = Some p"
    using assms by (auto simp: selectPod_def split: option.splits)
  have "p \<in> set items \<and> pod_Name p = c"
    using p by (induction items) (auto split: if_splits)
  then show ?thesis
    using assms p by (auto simp: selectPod_def)
qed

lemma choosePod_set:
  assumes wf: "wellFormedAnswers env" and run: "choosePod env opts = (None, opts')"
  shows "\<exists>p. dt_Pod (DebugTarget opts') = Some p \<and> namedPod p \<and>
             Squash opts' = (Squash opts)\<lparr>Pod := pod_Name p\<rparr>"
proof (cases "listPods env (history opts) (Namespace (Squash opts)) []")
  case (Inl err)
  then show ?thesis
    using run by (simp add: choosePod_def Let_def)
next
  case (Inr items)
  have named: "\<forall>p \<in> set items. namedPod p"
    using wf Inr by (auto simp: wellFormedAnswers_def)
  obtain c o2 where s: "selectPod c items o2 = (None, opts')" and sq: "Squash o2 = Squash opts"
    using run unfolding choosePod_run [OF Inr]
    by (auto simp: Let_def split: list.splits sum.splits)
  from selectPod_set [OF s] named sq show ?thesis
    by auto
qed

lemma resolvePod_set:
  assumes wf: "wellFormedAnswers env" and run: "resolvePod env opts = (None, opts')"
  shows "Pod (Squash opts') \<noteq> [] \<and>
         Namespace (Squash opts') = Namespace (Squash opts) \<and>
         Debugger (Squash opts') = Debugger (Squash opts) \<and>
         (\<forall>p. dt_Pod (DebugTarget opts') = Some p \<longrightarrow> namedPod p)"
proof (cases "Pod (Squash opts) = []")
  case True
  then have "choosePod env opts = (None, opts')"
    using run by (auto simp: resolvePod_def split: prod.splits option.splits)
  from choosePod_set [OF wf this] show ?thesis
    by (auto simp: namedPod_def)
next
  case False
  have sp: "\<And>h sq dt dt' p. getDebugTargetPodFromSpec env h sq dt = Inr dt' \<Longrightarrow>
                         dt_Pod dt' = Some p \<Longrightarrow> namedPod p"
    using wf unfolding wellFormedAnswers_def by blast
  show ?thesis
    using run False sp
    by (auto simp: resolvePod_def Let_def split: sum.splits)
qed

lemma findContainer_Some: "findContainer n cs = Some c \<Longrightarrow> c \<in> set cs \<and> container_Name c = n"
  by (induction cs) (auto split: if_splits)

lemma chooseContainer_run:
  assumes pod: "dt_Pod (DebugTarget opts) = Some p"
    and many: "2 \<le> length (pod_Containers p)"
  shows "chooseContainer env opts =
      (let names = map container_Name (pod_Containers p);
           r = askSelect env (history opts) ''Select a container'' names;
           o1 = record_event (EvSelect ''Select a container'' names r) opts
       in case r of
            Inl err \<Rightarrow> (Some err, o1)
          | Inr choice \<Rightarrow>
              (case findContainer choice (pod_Containers p) of
                 Some c \<Rightarrow> (None, setContainer c o1)
               | None \<Rightarrow> (Some (New ''selected container not found''), o1)))"
proof -
  obtain a b rest where ab: "pod_Containers p = a # b # rest"
    using two_or_more [OF many] by blast
  show ?thesis
    by (simp add: chooseContainer_def pod ab Let_def containerNames_eq
          cong: sum.case_cong option.case_cong)
qed

lemma chooseContainer_chosen:
  assumes run: "chooseContainer env opts = (None, opts')"
  shows "\<exists>p c o1. dt_Pod (DebugTarget opts) = Some p \<and> c \<in> set (pod_Containers p) \<and>
           opts' = setContainer c o1 \<and> Squash o1 = Squash opts"
proof -
  obtain p where p: "dt_Pod (DebugTarget opts) = Some p"
    using run by (auto simp: chooseContainer_def split: option.splits)
  consider "pod_Containers p = []" | c where "pod_Containers p = [c]" | "2 \<le> length (pod_Containers p)"
    by (cases "pod_Containers p"; cases "tl (pod_Containers p)") auto
  then show ?thesis
  proof cases
    case 1
    then show ?thesis
      using run p by (simp add: chooseContainer_def)
  next
    case (2 c)
    then show ?thesis
      using run p by (auto simp: chooseContainer_def)
  next
    case 3
    let ?names = "map container_Name (pod_Containers p)"
    let ?r = "askSelect env (history opts) ''Select a container'' ?names"
    let ?o1 = "record_event (EvSelect ''Select a container'' ?names ?r) opts"
    obtain choice c where "findContainer choice (pod_Containers p) = Some c" and o': "opts' = setContainer c ?o1"
      using run unfolding chooseContainer_run [OF p 3]
      by (auto simp: Let_def split: sum.splits option.splits)
    then have "c \<in> set (pod_Containers p)"
      using findContainer_Some by blast
    then show ?thesis
      using p o' by (intro exI [of _ p] exI [of _ c] exI [of _ ?o1]) simp
  qed
qed

lemma chooseContainer_set:
  assumes named: "\<forall>p. dt_Pod (DebugTarget opts) = Some p \<longrightarrow> namedPod p"
    and run: "chooseContainer env opts = (None, opts')"
  shows "Container (Squash opts') \<noteq> [] \<and>
         Namespace (Squash opts') = Namespace (Squash opts) \<and>
         Pod (Squash opts') = Pod (Squash opts) \<and>
         Debugger (Squash opts') = Debugger (Squash opts)"
proof -
  obtain p c o1 where p: "dt_Pod (DebugTarget opts) = Some p" and c: "c \<in> set (pod_Containers p)"
    and o': "opts' = setContainer c o1" and sq: "Squash o1 = Squash opts"
    using chooseContainer_chosen [OF run] by blast
  have "container_Name c \<noteq> []"
    using named p c by (auto simp: namedPod_def)
  then show ?thesis
    by (simp add: o' setContainer_def sq)
qed


lemma resolveContainer_set:
  assumes named: "\<forall>p. dt_Pod (DebugTarget opts) = Some p \<longrightarrow> namedPod p"
    and run: "resolveContainer env opts = (None, opts')"
  shows "Container (Squash opts') \<noteq> [] \<and>
         Namespace (Squash opts') = Namespace (Squash opts) \<and>
         Pod (Squash opts') = Pod (Squash opts) \<and>
         Debugger (Squash opts') = Debugger (Squash opts)"
proof (cases "Container (Squash opts) = []")
  case True
  then have "chooseContainer env opts = (None, opts')"
    using run by (auto simp: resolveContainer_def split: prod.splits option.splits)
  from chooseContainer_set [OF named this] show ?thesis .
next
  case False
  then show ?thesis
    using run by (auto simp: resolveContainer_def Let_def split: sum.splits)
qed

lemma GetMissing_set:
  assumes wf: "wellFormedAnswers env" and run: "GetMissing env opts = (None, opts')"
  shows "Namespace (Squash opts') \<noteq> [] \<and> Pod (Squash opts') \<noteq> [] \<and>
         Container (Squash opts') \<noteq> [] \<and> Debugger (Squash opts') = Debugger (Squash opts)"
proof -
  obtain o1 o2 where n: "resolveNamespace env opts = (None, o1)"
    and p: "resolvePod env o1 = (None, o2)"
    and c: "resolveContainer env o2 = (None, opts')"
    using run by (auto simp: GetMissing_def split: prod.splits option.splits)
  note a = resolveNamespace_set [OF wf n]
  note b = resolvePod_set [OF wf p]
  have named: "\<forall>q. dt_Pod (DebugTarget o2) = Some q \<longrightarrow> namedPod q"
    using b by blast
  note d = resolveContainer_set [OF named c]
  show ?thesis
    using a b d by simp
qed

lemma ensureLocalPort_set:
  assumes wf: "wellFormedAnswers env" and run: "ensureLocalPort env opts (Some port) = (None, port', opts')"
  shows "(\<exists>p. port' = Some p \<and> p \<noteq> 0) \<and> Squash opts' = Squash opts"
proof -
  have fp: "\<And>h q. findAnyFreePort env h = Inr q \<Longrightarrow> q \<noteq> 0"
    using wf unfolding wellFormedAnswers_def by blast
  show ?thesis
    using run fp
    by (auto simp: ensureLocalPort_def Let_def split: if_splits sum.splits option.splits)
qed

lemma confirmAttach_frame:
  "confirmAttach env opts = (e, opts') \<Longrightarrow> Squash opts' = Squash opts \<and> DebugTarget opts' = DebugTarget opts"
  by (auto simp: confirmAttach_def Let_def split: if_splits option.splits)

text \<open>
  C6. Under the assumptions on the answers of the cluster and of the prompt, whenever
  \<open>ensureMinimumSquashConfig\<close> returns without error the namespace, the pod name, the
  container name and the debugger of the merged options are non-empty and the local port is
  not zero.
\<close>

theorem ensureMinimumSquashConfig_resolved:
  assumes wf: "wellFormedAnswers env"
    and run: "ensureMinimumSquashConfig env opts = (None, opts')"
  shows "Namespace (Squash opts') \<noteq> [] \<and> Pod (Squash opts') \<noteq> [] \<and>
         Container (Squash opts') \<noteq> [] \<and> Debugger (Squash opts') \<noteq> [] \<and>
         LocalPort (Squash opts') \<noteq> 0"
proof -
  obtain o1 o2 port o3 where d: "chooseDebugger env opts = (None, o1)"
    and g: "GetMissing env o1 = (None, o2)"
    and l: "ensureLocalPort env o2 (Some (LocalPort (Squash o2))) = (None, port, o3)"
    and c: "confirmAttach env
              (case port of Some p \<Rightarrow> o3\<lparr>Squash := (Squash o3)\<lparr>LocalPort := p\<rparr>\<rparr> | None \<Rightarrow> o3) = (None, opts')"
    using run
    by (auto simp: ensureMinimumSquashConfig_def Let_def split: prod.splits option.splits)
  note a = chooseDebugger_set [OF wf d]
  note b = GetMissing_set [OF wf g]
  obtain p where p: "port = Some p" "p \<noteq> 0" and sq: "Squash o3 = Squash o2"
    using ensureLocalPort_set [OF wf l] by blast
  have "Squash opts' = (Squash o2)\<lparr>LocalPort := p\<rparr>"
    using confirmAttach_frame [OF c] p sq by simp
  then show ?thesis
    using a b p by simp
qed

theorem ensureMinimumSquashConfig_resolved_witness:
  "wellFormedAnswers exampleEnv \<and>
   fst (ensureMinimumSquashConfig exampleEnv exampleOptions) = None \<and>
   Namespace (Squash (snd (ensureMinimumSquashConfig exampleEnv exampleOptions))) = ''ns1'' \<and>
   Pod (Squash (snd (ensureMinimumSquashConfig exampleEnv exampleOptions))) = ''svc-1'' \<and>
   Container (Squash (snd (ensureMinimumSquashConfig exampleEnv exampleOptions))) = ''app'' \<and>
   Debugger (Squash (snd (ensureMinimumSquashConfig exampleEnv exampleOptions))) = ''dlv'' \<and>
   LocalPort (Squash (snd (ensureMinimumSquashConfig exampleEnv exampleOptions))) = 40000"
proof -
  let ?R = "ensureMinimumSquashConfig exampleEnv exampleOptions"
  have wf: "wellFormedAnswers exampleEnv"
    by (auto simp: wellFormedAnswers_def exampleEnv_def namedPod_def examplePod_def
          exampleContainer_def split: list.splits if_splits)
  have e: "fst ?R = None"
    by (simp add: run_defs)
  have run: "?R = (None, snd ?R)"
    using e by (metis prod.collapse)
  have v: "Namespace (Squash (snd ?R)) = ''ns1'' \<and> Pod (Squash (snd ?R)) = ''svc-1'' \<and>
           Container (Squash (snd ?R)) = ''app'' \<and> Debugger (Squash (snd ?R)) = ''dlv'' \<and>
           LocalPort (Squash (snd ?R)) = 40000"
    using ensureMinimumSquashConfig_resolved [OF wf run]
    by (simp add: run_defs)
  show ?thesis
    using wf e v by simp
qed

section \<open>Confirmation, secure attach and direct attach\<close>

lemma isResolution_not_attach: "isResolution ev \<Longrightarrow> \<not> isAttach ev \<and> \<not> isStartDebugContainer ev"
  by (cases ev) simp_all

lemma confirmAttach_cases:
  assumes run: "confirmAttach env opts = (e, opts')"
  shows "Squash opts' = Squash opts \<and> DebugTarget opts' = DebugTarget opts \<and>
         secureMode opts' = secureMode opts \<and>
         (if Machine (Squash opts) then e = None \<and> history opts' = history opts
          else (e \<noteq> None \<and> history opts' = history opts) \<or>
               (\<exists>p r. dt_Pod (DebugTarget opts) = Some p \<and>
                  history opts' = history opts @
                     [EvConfirm (confirmMessage (Debugger (Squash opts)) (pod_Name p)) r] \<and>
                  (if r = Inr True then e = None else e = Some (New ''user aborted''))))"
proof (cases "Machine (Squash opts)")
  case True
  then show ?thesis
    using run by (simp add: confirmAttach_def)
next
  case False
  show ?thesis
  proof (cases "dt_Pod (DebugTarget opts)")
    case None
    then show ?thesis
      using run False by (auto simp: confirmAttach_def)
  next
    case (Some p)
    let ?msg = "confirmMessage (Debugger (Squash opts)) (pod_Name p)"
    let ?r = "askConfirm env (history opts) ?msg"
    let ?o1 = "record_event (EvConfirm ?msg ?r) opts"
    have o': "opts' = ?o1"
      using run False Some by (simp add: confirmAttach_def Let_def split: if_splits)
    have e: "if ?r = Inr True then e = None else e = Some (New ''user aborted'')"
    proof (cases ?r)
      case (Inl err)
      then show ?thesis
        using run False Some by (simp add: confirmAttach_def Let_def)
    next
      case (Inr b)
      then show ?thesis
        using run False Some by (cases b) (simp_all add: confirmAttach_def Let_def)
    qed
    have "\<exists>q r. dt_Pod (DebugTarget opts) = Some q \<and>
                  history opts' = history opts @
                     [EvConfirm (confirmMessage (Debugger (Squash opts)) (pod_Name q)) r] \<and>
                  (if r = Inr True then e = None else e = Some (New ''user aborted''))"
      using Some o' e by (intro exI [of _ p] exI [of _ ?r]) simp
    then show ?thesis
      using False o' by simp
  qed
qed

lemma split_early:
  assumes x: "extends isResolution opts opts'" and e: "e \<noteq> None"
  shows "\<exists>res conf. history opts' = history opts @ res @ conf \<and> list_all isResolution res \<and>
           confirmedOrStopped opts e opts' conf"
proof -
  obtain res where res: "history opts' = history opts @ res" "list_all isResolution res"
    using x by (auto simp: extends_def)
  have "confirmedOrStopped opts e opts' []"
    using e by (simp add: confirmedOrStopped_def)
  then show ?thesis
    using res by (intro exI [of _ res] exI [of _ "[]"]) simp
qed

lemma split_confirm:
  assumes x: "extends isResolution opts o4" and s: "sameSettings opts o4"
    and c: "confirmAttach env o4 = (e, opts')"
  shows "\<exists>res conf. history opts' = history opts @ res @ conf \<and> list_all isResolution res \<and>
           confirmedOrStopped opts e opts' conf"
proof -
  obtain res where res: "history o4 = history opts @ res" "list_all isResolution res"
    using x by (auto simp: extends_def)
  note cx = confirmAttach_cases [OF c]
  have m: "Machine (Squash o4) = Machine (Squash opts)"
    using s by (simp add: sameSettings_def)
  have eq: "Squash opts' = Squash o4" "DebugTarget opts' = DebugTarget o4"
    using cx by simp_all
  have "\<exists>conf. history opts' = history o4 @ conf \<and> confirmedOrStopped opts e opts' conf"
  proof (cases "Machine (Squash opts)")
    case True
    then have "history opts' = history o4 @ [] \<and> confirmedOrStopped opts e opts' []"
      using cx m by (simp add: confirmedOrStopped_def)
    then show ?thesis ..
  next
    case False
    from cx m False have "(e \<noteq> None \<and> history opts' = history o4) \<or>
         (\<exists>p r. dt_Pod (DebugTarget o4) = Some p \<and>
            history opts' = history o4 @
               [EvConfirm (confirmMessage (Debugger (Squash o4)) (pod_Name p)) r] \<and>
            (if r = Inr True then e = None else e = Some (New ''user aborted'')))"
      by simp
    then show ?thesis
    proof
      assume "e \<noteq> None \<and> history opts' = history o4"
      then have "history opts' = history o4 @ [] \<and> confirmedOrStopped opts e opts' []"
        using False by (simp add: confirmedOrStopped_def)
      then show ?thesis ..
    next
      assume "\<exists>p r. dt_Pod (DebugTarget o4) = Some p \<and>
            history opts' = history o4 @
               [EvConfirm (confirmMessage (Debugger (Squash o4)) (pod_Name p)) r] \<and>
            (if r = Inr True then e = None else e = Some (New ''user aborted''))"
      then obtain p r where pr: "dt_Pod (DebugTarget o4) = Some p"
          "history opts' = history o4 @
               [EvConfirm (confirmMessage (Debugger (Squash o4)) (pod_Name p)) r]"
          "if r = Inr True then e = None else e = Some (New ''user aborted'')"
        by blast
      let ?conf = "[EvConfirm (confirmMessage (Debugger (Squash opts')) (pod_Name p)) r]"
      have "confirmedOrStopped opts e opts' ?conf"
        unfolding confirmedOrStopped_def using False pr(1,3) eq by auto
      moreover have "history opts' = history o4 @ ?conf"
        using pr(2) eq by simp
      ultimately show ?thesis
        by blast
    qed
  qed
  then obtain conf where "history opts' = history o4 @ conf" "confirmedOrStopped opts e opts' conf"
    by blast
  then show ?thesis
    using res by (intro exI [of _ res] exI [of _ conf]) simp
qed

lemma ensureMinimumSquashConfig_settings:
  assumes run: "ensureMinimumSquashConfig env opts = (e, opts')"
  shows "sameSettings opts opts'"
proof -
  have step: "\<And>a b port c. sameSettings a c \<Longrightarrow>
      sameSettings a (case port of Some p \<Rightarrow> c\<lparr>Squash := (Squash c)\<lparr>LocalPort := p\<rparr>\<rparr> | None \<Rightarrow> c)"
    by (auto simp: sameSettings_def split: option.splits)
  show ?thesis
    using run
    apply (simp add: ensureMinimumSquashConfig_def Let_def split: prod.splits option.splits)
    apply (auto dest!: chooseDebugger_ext GetMissing_ext ensureLocalPort_ext confirmAttach_cases
                simp: sameSettings_def split: option.splits)
    done
qed

lemma ensureMinimumSquashConfig_split:
  assumes run: "ensureMinimumSquashConfig env opts = (e, opts')"
  shows "\<exists>res conf. history opts' = history opts @ res @ conf \<and> list_all isResolution res \<and>
           confirmedOrStopped opts e opts' conf"
proof -
  obtain e1 o1 where d: "chooseDebugger env opts = (e1, o1)"
    by (cases "chooseDebugger env opts")
  note dx = chooseDebugger_ext [OF d]
  show ?thesis
  proof (cases e1)
    case (Some err)
    then have "e = Some err" "opts' = o1"
      using run d by (simp_all add: ensureMinimumSquashConfig_def)
    then show ?thesis
      using dx split_early by simp
  next
    case None
    obtain e2 o2 where g: "GetMissing env o1 = (e2, o2)"
      by (cases "GetMissing env o1")
    note gx = GetMissing_ext [OF g]
    have x2: "extends isResolution opts o2"
      using dx gx extends_trans by blast
    have s2: "sameSettings opts o2"
      using dx gx sameSettings_trans by blast
    show ?thesis
    proof (cases e2)
      case (Some err)
      then have "e = Some err" "opts' = o2"
        using run d g None by (simp_all add: ensureMinimumSquashConfig_def)
      then show ?thesis
        using x2 split_early by simp
    next
      case n2: None
      obtain e3 port o3 where l: "ensureLocalPort env o2 (Some (LocalPort (Squash o2))) = (e3, port, o3)"
        by (cases "ensureLocalPort env o2 (Some (LocalPort (Squash o2)))") auto
      note lx = ensureLocalPort_ext [OF l]
      define o4 where "o4 = (case port of Some p \<Rightarrow> o3\<lparr>Squash := (Squash o3)\<lparr>LocalPort := p\<rparr>\<rparr> | None \<Rightarrow> o3)"
      have h4: "history o4 = history o3"
        by (simp add: o4_def split: option.splits)
      have s34: "sameSettings o3 o4"
        by (simp add: o4_def sameSettings_def split: option.splits)
      have x3: "extends isResolution opts o3"
        using x2 lx extends_trans by blast
      have x4: "extends isResolution opts o4"
        using x3 h4 by (simp add: extends_def)
      have s4: "sameSettings opts o4"
        using s2 lx s34 sameSettings_trans by blast
      show ?thesis
      proof (cases e3)
        case (Some err)
        then have "e = Some err" "opts' = o4"
          using run d g None n2 l by (simp_all add: ensureMinimumSquashConfig_def Let_def o4_def)
        then show ?thesis
          using x4 split_early by simp
      next
        case n3: None
        have c: "confirmAttach env o4 = (e, opts')"
          using run d g None n2 l n3 by (simp add: ensureMinimumSquashConfig_def Let_def o4_def)
        show ?thesis
          using split_confirm [OF x4 s4 c] .
      qed
    qed
  qed
qed

lemma ensureSquashIsInCluster_cases:
  assumes run: "ensureSquashIsInCluster env opts = (e, opts')"
  shows "opts' = opts\<lparr>history := history opts'\<rparr> \<and>
         ((\<exists>err. e = Some err \<and> history opts' = history opts @ [EvGetNamespaces (Inl err)]) \<or>
          (\<exists>nss err. e = Some err \<and> history opts' = history opts @
               [EvGetNamespaces (Inr nss), EvListSquashDeployments nss (Inl err)]) \<or>
          (\<exists>nss. e = Some squashNotDeployed \<and> history opts' = history opts @
               [EvGetNamespaces (Inr nss), EvListSquashDeployments nss (Inr [])]) \<or>
          (\<exists>nss ds. ds \<noteq> [] \<and> e = None \<and> history opts' = history opts @
               [EvGetNamespaces (Inr nss), EvListSquashDeployments nss (Inr ds)]))"
proof (cases "getNamespaces env (history opts)")
  case (Inl err)
  then show ?thesis
    using run by (auto simp: ensureSquashIsInCluster_def record_event_def Let_def)
next
  case (Inr nss)
  let ?o1 = "record_event (EvGetNamespaces (Inr nss)) opts"
  show ?thesis
  proof (cases "listSquashDeployments env (history ?o1) nss")
    case (Inl err)
    then show ?thesis
      using run Inr by (auto simp: ensureSquashIsInCluster_def record_event_def Let_def)
  next
    case ds: (Inr ds)
    show ?thesis
    proof (cases "ds = []")
      case True
      then show ?thesis
        using run Inr ds by (auto simp: ensureSquashIsInCluster_def record_event_def Let_def)
    next
      case False
      then show ?thesis
        using run Inr ds by (auto simp: ensureSquashIsInCluster_def record_event_def Let_def)
    qed
  qed
qed

lemma getCreatedPod_history:
  assumes "getCreatedPod env opts initialPods createdPod = (e, created, opts')"
  shows "opts' = record_event (EvListPods (Namespace (Squash opts)) (squashLabelSelectorString env)
                    (listPods env (history opts) (Namespace (Squash opts)) (squashLabelSelectorString env))) opts"
  using assms
  by (auto simp: getCreatedPod_def Let_def split: sum.splits prod.splits if_splits)

lemma stoppedBeforeAttachI:
  assumes "e \<noteq> None" "history opts' = history opts @ pre" "list_all isPrecheck pre"
    "\<And>nss. EvListSquashDeployments nss (Inr []) \<in> set pre \<Longrightarrow> e = Some squashNotDeployed"
  shows "stoppedBeforeAttach opts e opts'"
  unfolding stoppedBeforeAttach_def using assms by blast

lemma record_event_frame:
  "o' = opts\<lparr>history := history o'\<rparr> \<Longrightarrow>
     record_event ev o' = opts\<lparr>history := history (record_event ev o')\<rparr>"
  by (cases opts; cases o') (simp add: record_event_def)

lemma rbac_attach_branch:
  assumes c: "ensureSquashIsInCluster env opts = (None, o1)"
    and u: "newUserController env (history o1) = None"
    and l: "listPods env (history o1 @ [EvNewUserController None]) (Namespace (Squash o1))
              (squashLabelSelectorString env) = Inr initialPods"
    and ct: "dt_Container (DebugTarget o1) = Some ct" and p: "dt_Pod (DebugTarget o1) = Some p"
    and gc: "getCreatedPod env
               (record_event (EvSleep 3)
                 (record_event (attachEvent env (Squash o1) ct p)
                   (record_event (EvListPods (Namespace (Squash o1)) (squashLabelSelectorString env) (Inr initialPods))
                     (record_event (EvNewUserController None) o1))))
               initialPods emptyPod = (e6, cr, o6)"
  shows "runBaseCommandWithRbac env opts =
           (case e6 of
              Some err \<Rightarrow> (Some err, o6)
            | None \<Rightarrow> (reportOrConnect env (history o6) (Squash o6) cr,
                       record_event (EvReportOrConnect cr
                          (reportOrConnect env (history o6) (Squash o6) cr)) o6))"
  using gc
  by (simp add: runBaseCommandWithRbac_def c u l ct p Let_def attachEvent_def split: option.splits)

lemma record_events_explicit:
  assumes "o1 = opts\<lparr>history := history opts @ pre\<rparr>"
  shows "record_event e4 (record_event e3 (record_event e2 (record_event e1 o1))) =
           opts\<lparr>history := history opts @ pre @ [e1, e2, e3, e4]\<rparr>"
  by (simp add: assms record_event_def)

lemma runBaseCommandWithRbac_trace:
  assumes run: "runBaseCommandWithRbac env opts = (e, opts')"
  shows "stoppedBeforeAttach opts e opts' \<or> attachedAndDiffed env opts e opts'"
proof -
  obtain e1 o1 where c: "ensureSquashIsInCluster env opts = (e1, o1)"
    by (cases "ensureSquashIsInCluster env opts")
  note cc = ensureSquashIsInCluster_cases [OF c]
  show ?thesis
  proof (cases e1)
    case (Some err)
    then have r: "e = Some err" "opts' = o1"
      using run c by (simp_all add: runBaseCommandWithRbac_def)
    have "stoppedBeforeAttach opts e opts'"
      using cc Some r by (auto intro!: stoppedBeforeAttachI)
    then show ?thesis ..
  next
    case None
    then obtain nss ds where ds: "ds \<noteq> []"
      and h1: "history o1 = history opts @ [EvGetNamespaces (Inr nss), EvListSquashDeployments nss (Inr ds)]"
      using cc by auto
    have o1: "o1 = opts\<lparr>history := history o1\<rparr>"
      using cc by simp
    have o1x: "o1 = opts\<lparr>history := history opts @
                 [EvGetNamespaces (Inr nss), EvListSquashDeployments nss (Inr ds)]\<rparr>"
      by (subst o1) (simp add: h1)
    have sq1: "Squash o1 = Squash opts" "DebugTarget o1 = DebugTarget opts"
      by (subst o1x, simp)+
    have c0: "ensureSquashIsInCluster env opts = (None, o1)"
      using c None by simp
    let ?u = "newUserController env (history o1)"
    let ?o2 = "record_event (EvNewUserController ?u) o1"
    show ?thesis
    proof (cases ?u)
      case (Some err)
      then have r: "e = Some err" "opts' = ?o2"
        using run c0 by (auto simp: runBaseCommandWithRbac_def Let_def)
      have "stoppedBeforeAttach opts e opts'"
        using r h1 ds by (auto intro!: stoppedBeforeAttachI)
      then show ?thesis ..
    next
      case u: None
      let ?r = "listPods env (history o1 @ [EvNewUserController None]) (Namespace (Squash o1))
                  (squashLabelSelectorString env)"
      let ?o3 = "record_event (EvListPods (Namespace (Squash o1)) (squashLabelSelectorString env) ?r)
                   (record_event (EvNewUserController None) o1)"
      show ?thesis
      proof (cases ?r)
        case (Inl err)
        then have r: "e = Some err" "opts' = ?o3"
          using run c0 u by (auto simp: runBaseCommandWithRbac_def Let_def)
        have "stoppedBeforeAttach opts e opts'"
          using r h1 ds u by (auto intro!: stoppedBeforeAttachI)
        then show ?thesis ..
      next
        case (Inr initialPods)
        show ?thesis
        proof (cases "\<exists>c p. dt_Container (DebugTarget o1) = Some c \<and> dt_Pod (DebugTarget o1) = Some p")
          case False
          then have r: "e = Some NilPointerPanic" "opts' = ?o3"
            using run c0 u Inr
            by (auto simp: runBaseCommandWithRbac_def Let_def split: option.splits)
          have "stoppedBeforeAttach opts e opts'"
            using r h1 ds u Inr by (auto intro!: stoppedBeforeAttachI)
          then show ?thesis ..
        next
          case True
          then obtain ct p where cp: "dt_Container (DebugTarget o1) = Some ct" "dt_Pod (DebugTarget o1) = Some p"
            by blast
          let ?o5 = "record_event (EvSleep 3)
                 (record_event (attachEvent env (Squash o1) ct p)
                   (record_event (EvListPods (Namespace (Squash o1)) (squashLabelSelectorString env) (Inr initialPods))
                     (record_event (EvNewUserController None) o1)))"
          obtain e6 cr o6 where gc: "getCreatedPod env ?o5 initialPods emptyPod = (e6, cr, o6)"
            by (cases "getCreatedPod env ?o5 initialPods emptyPod") auto
          note eq = rbac_attach_branch [OF c0 u Inr cp gc]
          have x5: "?o5 = opts\<lparr>history := history opts @
                             secureAttachPrefix env opts nss ds initialPods ct p\<rparr>"
            using record_events_explicit [OF o1x] sq1 by (simp add: secureAttachPrefix_def)
          have g: "(case getCreatedPod env ?o5 initialPods emptyPod of
                     (Some err, created, o6) \<Rightarrow> e = Some err \<and> opts' = o6
                   | (None, created, o6) \<Rightarrow>
                       e = reportOrConnect env (history o6) (Squash o6) created \<and>
                       opts' = record_event (EvReportOrConnect created e) o6)"
            using run unfolding eq gc by (cases e6) auto
          note cp' = cp [unfolded sq1]
          note g' = g [unfolded x5]
          have "attachedAndDiffed env opts e opts'"
            unfolding attachedAndDiffed_def
            apply (rule exI [of _ nss], rule exI [of _ ds], rule exI [of _ initialPods])
            apply (rule exI [of _ ct], rule exI [of _ p])
            apply (intro conjI)
               apply (rule ds)
              apply (rule cp' (1))
             apply (rule cp' (2))
            apply (rule g')
            done
          then show ?thesis ..
        qed
      qed
    qed
  qed
qed

lemma runBaseCommand_phases:
  assumes run: "runBaseCommand env opts = (e, opts')"
  obtains (stopped) "e \<noteq> None" "ensureMinimumSquashConfig env opts = (e, opts')"
  | (secure) o1 where "secureMode opts" "ensureMinimumSquashConfig env opts = (None, o1)"
      "runBaseCommandWithRbac env o1 = (e, opts')"
  | (direct) o1 where "\<not> secureMode opts" "ensureMinimumSquashConfig env opts = (None, o1)"
      "e = startDebugContainer env (history o1) (Squash o1) (DebugTarget o1)"
      "opts' = record_event (EvStartDebugContainer (Squash o1) (DebugTarget o1) e) o1"
proof -
  obtain e0 o1 where m: "ensureMinimumSquashConfig env opts = (e0, o1)"
    by (cases "ensureMinimumSquashConfig env opts")
  have s: "secureMode o1 = secureMode opts"
    using ensureMinimumSquashConfig_settings [OF m] by (simp add: sameSettings_def)
  show ?thesis
  proof (cases e0)
    case (Some err)
    then have "e = Some err" "opts' = o1"
      using run m by (simp_all add: runBaseCommand_def)
    then show ?thesis
      using stopped m Some by simp
  next
    case None
    show ?thesis
    proof (cases "secureMode opts")
      case True
      then have "runBaseCommandWithRbac env o1 = (e, opts')"
        using run m None s
        by (cases "runBaseCommandWithRbac env o1")
           (auto simp: runBaseCommand_def split: option.splits)
      then show ?thesis
        using secure True m None by simp
    next
      case False
      then have "e = startDebugContainer env (history o1) (Squash o1) (DebugTarget o1)"
        "opts' = record_event (EvStartDebugContainer (Squash o1) (DebugTarget o1) e) o1"
        using run m None s by (auto simp: runBaseCommand_def Let_def)
      then show ?thesis
        using direct False m None by simp
    qed
  qed
qed

lemma attachedAndDiffed_history:
  assumes "attachedAndDiffed env opts e opts'"
  shows "\<exists>nss ds initialPods c p.
           ds \<noteq> [] \<and> dt_Container (DebugTarget opts) = Some c \<and> dt_Pod (DebugTarget opts) = Some p \<and>
           (let pre = secureAttachPrefix env opts nss ds initialPods c p;
                o5 = opts\<lparr>history := history opts @ pre\<rparr>;
                current = EvListPods (Namespace (Squash opts)) (squashLabelSelectorString env)
                            (listPods env (history o5) (Namespace (Squash opts)) (squashLabelSelectorString env))
            in case getCreatedPod env o5 initialPods emptyPod of
                 (Some err, created, o6) \<Rightarrow>
                   e = Some err \<and> opts' = opts\<lparr>history := history opts @ pre @ [current]\<rparr>
               | (None, created, o6) \<Rightarrow>
                   e = reportOrConnect env (history opts @ pre @ [current]) (Squash opts) created \<and>
                   opts' = opts\<lparr>history := history opts @ pre @ [current, EvReportOrConnect created e]\<rparr>)"
proof -
  from assms obtain nss ds initialPods c p where
    ds: "ds \<noteq> []" and c: "dt_Container (DebugTarget opts) = Some c" and p: "dt_Pod (DebugTarget opts) = Some p"
    and g: "case getCreatedPod env
                (opts\<lparr>history := history opts @ secureAttachPrefix env opts nss ds initialPods c p\<rparr>)
                initialPods emptyPod of
           (Some err, created, o6) \<Rightarrow> e = Some err \<and> opts' = o6
         | (None, created, o6) \<Rightarrow>
             e = reportOrConnect env (history o6) (Squash o6) created \<and>
             opts' = record_event (EvReportOrConnect created e) o6"
    unfolding attachedAndDiffed_def by (elim exE conjE) (rule that)
  let ?pre = "secureAttachPrefix env opts nss ds initialPods c p"
  let ?o5 = "opts\<lparr>history := history opts @ ?pre\<rparr>"
  let ?cur = "EvListPods (Namespace (Squash opts)) (squashLabelSelectorString env)
                (listPods env (history ?o5) (Namespace (Squash opts)) (squashLabelSelectorString env))"
  obtain e6 cr o6 where gc: "getCreatedPod env ?o5 initialPods emptyPod = (e6, cr, o6)"
    by (cases "getCreatedPod env ?o5 initialPods emptyPod") auto
  have o6: "o6 = opts\<lparr>history := history opts @ ?pre @ [?cur]\<rparr>"
    using getCreatedPod_history [OF gc] by (simp add: record_event_def)
  have main: "case getCreatedPod env ?o5 initialPods emptyPod of
                 (Some err, created, o6) \<Rightarrow>
                   e = Some err \<and> opts' = opts\<lparr>history := history opts @ ?pre @ [?cur]\<rparr>
               | (None, created, o6) \<Rightarrow>
                   e = reportOrConnect env (history opts @ ?pre @ [?cur]) (Squash opts) created \<and>
                   opts' = opts\<lparr>history := history opts @ ?pre @ [?cur, EvReportOrConnect created e]\<rparr>"
    using g unfolding gc o6 by (cases e6) (simp_all add: record_event_def)
  show ?thesis
    unfolding Let_def
    apply (rule exI [of _ nss], rule exI [of _ ds], rule exI [of _ initialPods])
    apply (rule exI [of _ c], rule exI [of _ p])
    apply (intro conjI)
       apply (rule ds)
      apply (rule c)
     apply (rule p)
    apply (rule main)
    done
qed

lemma isPrecheck_not_attach: "isPrecheck ev \<Longrightarrow> \<not> isAttach ev \<and> \<not> isStartDebugContainer ev \<and> isAttachment ev"
  by (cases ev) simp_all

lemma stoppedBeforeAttach_emitted:
  assumes "stoppedBeforeAttach opts e opts'"
  shows "list_all isPrecheck (emitted opts opts') \<and> e \<noteq> None \<and>
         (\<forall>nss. EvListSquashDeployments nss (Inr []) \<in> set (emitted opts opts') \<longrightarrow> e = Some squashNotDeployed)"
  using assms by (auto simp: stoppedBeforeAttach_def emitted_def)

text \<open>
  C5. In every run of the secure attach, either no \<open>Attach\<close> is submitted at all, or the
  calls are, in this order: the deployment check, the user controller, the listing of the
  debug-session pods of the target namespace (the "before" snapshot), the \<open>Attach\<close>, a
  sleep of three seconds, and the listing with the same namespace and the same label
  selector, answered on the history that contains the \<open>Attach\<close> and the sleep. The
  outcome is then that of \<open>getCreatedPod\<close> run on the "before" list: its error, or the
  report-or-connect call on the pod it found.
\<close>

theorem secure_attach_snapshot_order:
  assumes run: "runBaseCommandWithRbac env opts = (e, opts')"
  shows "(\<forall>ev \<in> set (emitted opts opts'). \<not> isAttach ev) \<or>
         (\<exists>nss ds initialPods c p.
            let pre = secureAttachPrefix env opts nss ds initialPods c p;
                o5 = opts\<lparr>history := history opts @ pre\<rparr>;
                current = EvListPods (Namespace (Squash opts)) (squashLabelSelectorString env)
                            (listPods env (history o5) (Namespace (Squash opts)) (squashLabelSelectorString env))
            in case getCreatedPod env o5 initialPods emptyPod of
                 (Some err, created, o6) \<Rightarrow>
                   e = Some err \<and> emitted opts opts' = pre @ [current]
               | (None, created, o6) \<Rightarrow>
                   e = reportOrConnect env (history opts @ pre @ [current]) (Squash opts) created \<and>
                   emitted opts opts' = pre @ [current, EvReportOrConnect created e])"
  (is "?quiet \<or> ?attached")
proof -
  from runBaseCommandWithRbac_trace [OF run] show ?thesis
  proof
    assume "stoppedBeforeAttach opts e opts'"
    then have "list_all isPrecheck (emitted opts opts')"
      using stoppedBeforeAttach_emitted by blast
    then have ?quiet
      using isPrecheck_not_attach by (auto simp: list_all_iff)
    then show ?thesis ..
  next
    assume "attachedAndDiffed env opts e opts'"
    from attachedAndDiffed_history [OF this] obtain nss ds initialPods c p where
      h: "let pre = secureAttachPrefix env opts nss ds initialPods c p;
                o5 = opts\<lparr>history := history opts @ pre\<rparr>;
                current = EvListPods (Namespace (Squash opts)) (squashLabelSelectorString env)
                            (listPods env (history o5) (Namespace (Squash opts)) (squashLabelSelectorString env))
            in case getCreatedPod env o5 initialPods emptyPod of
                 (Some err, created, o6) \<Rightarrow>
                   e = Some err \<and> opts' = opts\<lparr>history := history opts @ pre @ [current]\<rparr>
               | (None, created, o6) \<Rightarrow>
                   e = reportOrConnect env (history opts @ pre @ [current]) (Squash opts) created \<and>
                   opts' = opts\<lparr>history := history opts @ pre @ [current, EvReportOrConnect created e]\<rparr>"
      by (elim exE conjE) (rule that)
    let ?pre = "secureAttachPrefix env opts nss ds initialPods c p"
    let ?o5 = "opts\<lparr>history := history opts @ ?pre\<rparr>"
    obtain e6 cr o6 where gc: "getCreatedPod env ?o5 initialPods emptyPod = (e6, cr, o6)"
      by (cases "getCreatedPod env ?o5 initialPods emptyPod") auto
    have main: "let pre = secureAttachPrefix env opts nss ds initialPods c p;
                o5 = opts\<lparr>history := history opts @ pre\<rparr>;
                current = EvListPods (Namespace (Squash opts)) (squashLabelSelectorString env)
                            (listPods env (history o5) (Namespace (Squash opts)) (squashLabelSelectorString env))
            in case getCreatedPod env o5 initialPods emptyPod of
                 (Some err, created, o6) \<Rightarrow>
                   e = Some err \<and> emitted opts opts' = pre @ [current]
               | (None, created, o6) \<Rightarrow>
                   e = reportOrConnect env (history opts @ pre @ [current]) (Squash opts) created \<and>
                   emitted opts opts' = pre @ [current, EvReportOrConnect created e]"
      using h unfolding Let_def gc by (cases e6) (simp_all add: emitted_def)
    have ?attached
      apply (rule exI [of _ nss], rule exI [of _ ds], rule exI [of _ initialPods])
      apply (rule exI [of _ c], rule exI [of _ p])
      apply (rule main)
      done
    then show ?thesis ..
  qed
qed

lemma front_event:
  "isResolution ev \<or> isConfirm ev \<Longrightarrow>
     \<not> isAttach ev \<and> \<not> isStartDebugContainer ev \<and> (\<forall>nss r. ev \<noteq> EvListSquashDeployments nss r)"
  by (cases ev) simp_all

lemma confirmedOrStopped_conf:
  "confirmedOrStopped opts e opts' conf \<Longrightarrow> list_all isConfirm conf"
  by (auto simp: confirmedOrStopped_def split: if_splits)

lemma attachedAndDiffed_emitted:
  assumes a: "attachedAndDiffed env opts e opts'"
  shows "\<exists>nss ds initialPods c p r post.
           ds \<noteq> [] \<and>
           history opts' = history opts @ secureAttachPrefix env opts nss ds initialPods c p @
              EvListPods (Namespace (Squash opts)) (squashLabelSelectorString env) r # post \<and>
           (post = [] \<or> (\<exists>created. post = [EvReportOrConnect created e]))"
proof -
  from attachedAndDiffed_history [OF a] obtain nss ds initialPods c p where
    ds: "ds \<noteq> []" and
    h: "let pre = secureAttachPrefix env opts nss ds initialPods c p;
                o5 = opts\<lparr>history := history opts @ pre\<rparr>;
                current = EvListPods (Namespace (Squash opts)) (squashLabelSelectorString env)
                            (listPods env (history o5) (Namespace (Squash opts)) (squashLabelSelectorString env))
            in case getCreatedPod env o5 initialPods emptyPod of
                 (Some err, created, o6) \<Rightarrow>
                   e = Some err \<and> opts' = opts\<lparr>history := history opts @ pre @ [current]\<rparr>
               | (None, created, o6) \<Rightarrow>
                   e = reportOrConnect env (history opts @ pre @ [current]) (Squash opts) created \<and>
                   opts' = opts\<lparr>history := history opts @ pre @ [current, EvReportOrConnect created e]\<rparr>"
    by (elim exE conjE) (rule that)
  let ?pre = "secureAttachPrefix env opts nss ds initialPods c p"
  let ?o5 = "opts\<lparr>history := history opts @ ?pre\<rparr>"
  let ?r = "listPods env (history ?o5) (Namespace (Squash opts)) (squashLabelSelectorString env)"
  obtain e6 cr o6 where gc: "getCreatedPod env ?o5 initialPods emptyPod = (e6, cr, o6)"
    by (cases "getCreatedPod env ?o5 initialPods emptyPod") auto
  have "\<exists>post. history opts' = history opts @ ?pre @
              EvListPods (Namespace (Squash opts)) (squashLabelSelectorString env) ?r # post \<and>
           (post = [] \<or> (\<exists>created. post = [EvReportOrConnect created e]))"
    using h unfolding Let_def gc by (cases e6) auto
  then show ?thesis
    using ds by blast
qed

lemma rbac_emitted:
  assumes run: "runBaseCommandWithRbac env opts = (e, opts')"
  shows "\<exists>att. history opts' = history opts @ att \<and> list_all isAttachment att \<and>
           (\<forall>ev \<in> set att. \<not> isStartDebugContainer ev \<and> \<not> isConfirm ev) \<and>
           (\<forall>nss. EvListSquashDeployments nss (Inr []) \<in> set att \<longrightarrow>
              e = Some squashNotDeployed \<and> (\<forall>ev \<in> set att. \<not> isAttach ev)) \<and>
           ((\<exists>ev \<in> set att. isAttach ev) \<longrightarrow>
              (\<exists>nss ds post. ds \<noteq> [] \<and>
                 att = EvGetNamespaces (Inr nss) # EvListSquashDeployments nss (Inr ds) # post))"
proof -
  from runBaseCommandWithRbac_trace [OF run] show ?thesis
  proof
    assume "stoppedBeforeAttach opts e opts'"
    then obtain pre where pre: "history opts' = history opts @ pre" "list_all isPrecheck pre"
      "\<forall>nss. EvListSquashDeployments nss (Inr []) \<in> set pre \<longrightarrow> e = Some squashNotDeployed"
      unfolding stoppedBeforeAttach_def by blast
    have k: "\<forall>ev \<in> set pre. isAttachment ev \<and> \<not> isAttach ev \<and> \<not> isStartDebugContainer ev \<and> \<not> isConfirm ev"
    proof
      fix ev assume "ev \<in> set pre"
      then have "isPrecheck ev"
        using pre(2) by (simp add: list_all_iff)
      then show "isAttachment ev \<and> \<not> isAttach ev \<and> \<not> isStartDebugContainer ev \<and> \<not> isConfirm ev"
        by (cases ev) simp_all
    qed
    show ?thesis
      apply (rule exI [of _ pre])
      using pre k by (auto simp: list_all_iff)
  next
    assume "attachedAndDiffed env opts e opts'"
    from attachedAndDiffed_emitted [OF this] obtain nss ds initialPods c p r post where
      ds: "ds \<noteq> []" and
      h: "history opts' = history opts @ secureAttachPrefix env opts nss ds initialPods c p @
              EvListPods (Namespace (Squash opts)) (squashLabelSelectorString env) r # post" and
      post: "post = [] \<or> (\<exists>created. post = [EvReportOrConnect created e])"
      by blast
    let ?att = "secureAttachPrefix env opts nss ds initialPods c p @
              EvListPods (Namespace (Squash opts)) (squashLabelSelectorString env) r # post"
    have a1: "list_all isAttachment ?att"
      using post by (auto simp: secureAttachPrefix_def attachEvent_def)
    have a2: "\<forall>ev \<in> set ?att. \<not> isStartDebugContainer ev \<and> \<not> isConfirm ev"
      using post by (auto simp: secureAttachPrefix_def attachEvent_def)
    have a3: "\<forall>nss'. EvListSquashDeployments nss' (Inr []) \<notin> set ?att"
      using post ds by (auto simp: secureAttachPrefix_def attachEvent_def)
    have a4: "\<exists>nss' ds' post'. ds' \<noteq> [] \<and>
                 ?att = EvGetNamespaces (Inr nss') # EvListSquashDeployments nss' (Inr ds') # post'"
      using ds by (simp add: secureAttachPrefix_def)
    show ?thesis
      apply (rule exI [of _ ?att])
      using h a1 a2 a3 a4 by blast
  qed
qed

lemma ensureMinimumSquashConfig_front:
  assumes m: "ensureMinimumSquashConfig env opts = (e0, o1)"
  shows "\<exists>front. history o1 = history opts @ front \<and> (\<forall>ev \<in> set front. isResolution ev \<or> isConfirm ev)"
proof -
  from ensureMinimumSquashConfig_split [OF m] obtain res conf where
    h: "history o1 = history opts @ res @ conf" and r: "list_all isResolution res"
    and c: "confirmedOrStopped opts e0 o1 conf"
    by blast
  have "list_all isConfirm conf"
    using c by (rule confirmedOrStopped_conf)
  then have "\<forall>ev \<in> set (res @ conf). isResolution ev \<or> isConfirm ev"
    using r by (auto simp: list_all_iff)
  then show ?thesis
    using h by blast
qed

text \<open>
  C2. In secure mode the base command never starts the debug container directly. If the
  deployment listing comes back empty, the command returns the error whose message tells
  the operator that Squash must be deployed to the cluster to use secure mode, and to
  either disable secure mode in the config file or deploy Squash; no \<open>Attach\<close> was
  submitted.
  Whenever an \<open>Attach\<close> was submitted, a deployment listing with a non-empty answer
  precedes it, with no \<open>Attach\<close> before that listing.
\<close>

theorem secure_mode_requires_deployment:
  assumes run: "runBaseCommand env opts = (e, opts')" and secure: "secureMode opts"
  shows "(\<forall>ev \<in> set (emitted opts opts'). \<not> isStartDebugContainer ev) \<and>
         (\<forall>nss. EvListSquashDeployments nss (Inr []) \<in> set (emitted opts opts') \<longrightarrow>
            e = Some (Errorf ''Squash must be deployed to the cluster to use secure mode. Either disable secure mode in your squash config file or deploy Squash to your cluster. You can deploy with 'squashctl agent deploy'.'' []) \<and>
            (\<forall>ev \<in> set (emitted opts opts'). \<not> isAttach ev)) \<and>
         ((\<exists>ev \<in> set (emitted opts opts'). isAttach ev) \<longrightarrow>
            (\<exists>pre nss ds post. ds \<noteq> [] \<and>
               emitted opts opts' = pre @ EvListSquashDeployments nss (Inr ds) # post \<and>
               (\<forall>ev \<in> set pre. \<not> isAttach ev)))"
proof -
  from run show ?thesis
  proof (cases rule: runBaseCommand_phases)
    case stopped
    from ensureMinimumSquashConfig_front [OF stopped(2)] obtain front where
      h: "history opts' = history opts @ front" and f: "\<forall>ev \<in> set front. isResolution ev \<or> isConfirm ev"
      by blast
    have em: "emitted opts opts' = front"
      using h by (simp add: emitted_def)
    have k: "\<forall>ev \<in> set front. \<not> isAttach ev \<and> \<not> isStartDebugContainer ev \<and>
                (\<forall>nss r. ev \<noteq> EvListSquashDeployments nss r)"
      using f front_event by blast
    show ?thesis
      unfolding em using k by blast
  next
    case (secure o1)
    from ensureMinimumSquashConfig_front [OF secure(2)] obtain front where
      h: "history o1 = history opts @ front" and f: "\<forall>ev \<in> set front. isResolution ev \<or> isConfirm ev"
      by blast
    have k: "\<forall>ev \<in> set front. \<not> isAttach ev \<and> \<not> isStartDebugContainer ev \<and>
                (\<forall>nss r. ev \<noteq> EvListSquashDeployments nss r)"
      using f front_event by blast
    from rbac_emitted [OF secure(3)] obtain att where
      a: "history opts' = history o1 @ att" and
      a2: "\<forall>ev \<in> set att. \<not> isStartDebugContainer ev \<and> \<not> isConfirm ev" and
      a3: "\<forall>nss. EvListSquashDeployments nss (Inr []) \<in> set att \<longrightarrow>
              e = Some squashNotDeployed \<and> (\<forall>ev \<in> set att. \<not> isAttach ev)" and
      a4: "(\<exists>ev \<in> set att. isAttach ev) \<longrightarrow>
              (\<exists>nss ds post. ds \<noteq> [] \<and>
                 att = EvGetNamespaces (Inr nss) # EvListSquashDeployments nss (Inr ds) # post)"
      by blast
    have em: "emitted opts opts' = front @ att"
      using h a by (simp add: emitted_def)
    have c1: "\<forall>ev \<in> set (front @ att). \<not> isStartDebugContainer ev"
      using k a2 by auto
    have c2: "\<forall>nss. EvListSquashDeployments nss (Inr []) \<in> set (front @ att) \<longrightarrow>
            e = Some squashNotDeployed \<and> (\<forall>ev \<in> set (front @ att). \<not> isAttach ev)"
      using k a3 by auto
    have c3: "(\<exists>ev \<in> set (front @ att). isAttach ev) \<longrightarrow>
            (\<exists>pre nss ds post. ds \<noteq> [] \<and>
               front @ att = pre @ EvListSquashDeployments nss (Inr ds) # post \<and>
               (\<forall>ev \<in> set pre. \<not> isAttach ev))"
    proof
      assume "\<exists>ev \<in> set (front @ att). isAttach ev"
      then have "\<exists>ev \<in> set att. isAttach ev"
        using k by auto
      then obtain nss ds post where ds: "ds \<noteq> []"
        and att: "att = EvGetNamespaces (Inr nss) # EvListSquashDeployments nss (Inr ds) # post"
        using a4 by blast
      have "front @ att = (front @ [EvGetNamespaces (Inr nss)]) @ EvListSquashDeployments nss (Inr ds) # post"
        by (simp add: att)
      moreover have "\<forall>ev \<in> set (front @ [EvGetNamespaces (Inr nss)]). \<not> isAttach ev"
        using k by auto
      ultimately show "\<exists>pre nss ds post. ds \<noteq> [] \<and>
               front @ att = pre @ EvListSquashDeployments nss (Inr ds) # post \<and>
               (\<forall>ev \<in> set pre. \<not> isAttach ev)"
        using ds by blast
    qed
    show ?thesis
      unfolding em using c1 c2 [unfolded squashNotDeployed_def] c3 by (intro conjI)
  next
    case (direct o1)
    then show ?thesis
      using secure by simp
  qed
qed


text \<open>
  C10. Outside secure mode the base command never submits an \<open>Attach\<close>. When the
  resolution fails its error is returned; when it succeeds, the command calls
  \<open>StartDebugContainer\<close> once, on the resolved options and the resolved target, and
  returns exactly what that call returned, leaving options and target as resolved.
\<close>

theorem direct_attach_delegates:
  assumes run: "runBaseCommand env opts = (e, opts')" and direct: "\<not> secureMode opts"
  shows "(\<forall>ev \<in> set (emitted opts opts'). \<not> isAttach ev) \<and>
         (case ensureMinimumSquashConfig env opts of
            (Some err, o1) \<Rightarrow> e = Some err \<and> opts' = o1
          | (None, o1) \<Rightarrow>
              e = startDebugContainer env (history o1) (Squash o1) (DebugTarget o1) \<and>
              emitted o1 opts' = [EvStartDebugContainer (Squash o1) (DebugTarget o1) e] \<and>
              Squash opts' = Squash o1 \<and> DebugTarget opts' = DebugTarget o1)"
proof -
  from run show ?thesis
  proof (cases rule: runBaseCommand_phases)
    case stopped
    from ensureMinimumSquashConfig_front [OF stopped(2)] obtain front where
      h: "history opts' = history opts @ front" and f: "\<forall>ev \<in> set front. isResolution ev \<or> isConfirm ev"
      by blast
    have "\<forall>ev \<in> set (emitted opts opts'). \<not> isAttach ev"
      using h f front_event by (auto simp: emitted_def)
    then show ?thesis
      using stopped by auto
  next
    case (secure o1)
    then show ?thesis
      using direct by simp
  next
    case (direct o1)
    from ensureMinimumSquashConfig_front [OF direct(2)] obtain front where
      h: "history o1 = history opts @ front" and f: "\<forall>ev \<in> set front. isResolution ev \<or> isConfirm ev"
      by blast
    have em: "emitted opts opts' = front @ [EvStartDebugContainer (Squash o1) (DebugTarget o1) e]"
      using h direct(4) by (simp add: emitted_def)
    have "\<forall>ev \<in> set (emitted opts opts'). \<not> isAttach ev"
      unfolding em using f front_event by auto
    then show ?thesis
      using direct by (simp add: emitted_def)
  qed
qed

lemmas attach_defs =
  runBaseCommand_def runBaseCommandWithRbac_def ensureSquashIsInCluster_def getCreatedPod_def
  expectedOnePod_def emptyPod_def emitted_def

theorem direct_attach_delegates_witness:
  "\<not> secureMode machineOptions \<and>
   runBaseCommand exampleEnv
       (machineOptions\<lparr>Squash := (Squash machineOptions)\<lparr>Debugger := ''dlv''\<rparr>\<rparr>) =
     (None,
      \<lparr>Squash = (Squash resolvedOptions),
       DebugTarget = DebugTarget resolvedOptions,
       secureMode = False,
       history =
         [EvListNamespaces (Inr [''kube-system'', ''squash'', ''ns1'']),
          EvListPods ''ns1'' [] (Inr [examplePod ''svc-1'']),
          EvFindAnyFreePort (Inr 40000),
          EvStartDebugContainer (Squash resolvedOptions) (DebugTarget resolvedOptions) None]\<rparr>)"
proof -
  let ?o = "machineOptions\<lparr>Squash := (Squash machineOptions)\<lparr>Debugger := ''dlv''\<rparr>\<rparr>"
  let ?R = "runBaseCommand exampleEnv ?o"
  have d: "\<not> secureMode ?o"
    by (simp add: machineOptions_def exampleOptions_def)
  have run: "?R = (fst ?R, snd ?R)"
    by simp
  note t = direct_attach_delegates [OF run d]
  have v: "?R = (None,
      \<lparr>Squash = (Squash resolvedOptions),
       DebugTarget = DebugTarget resolvedOptions,
       secureMode = False,
       history =
         [EvListNamespaces (Inr [''kube-system'', ''squash'', ''ns1'']),
          EvListPods ''ns1'' [] (Inr [examplePod ''svc-1'']),
          EvFindAnyFreePort (Inr 40000),
          EvStartDebugContainer (Squash resolvedOptions) (DebugTarget resolvedOptions) None]\<rparr>)"
    using t
    by (simp add: attach_defs run_defs machineOptions_def resolvedOptions_def)
  show ?thesis
    using v by (simp add: machineOptions_def exampleOptions_def)
qed


theorem secure_mode_requires_deployment_witness:
  "secureMode (machineOptions\<lparr>secureMode := True\<rparr>) \<and>
   runBaseCommand (exampleEnv\<lparr>listSquashDeployments := (\<lambda>h nss. Inr [])\<rparr>)
       (machineOptions\<lparr>secureMode := True\<rparr>) =
     (Some (Errorf ''Squash must be deployed to the cluster to use secure mode. Either disable secure mode in your squash config file or deploy Squash to your cluster. You can deploy with 'squashctl agent deploy'.'' []),
      \<lparr>Squash = Squash resolvedOptions,
       DebugTarget = DebugTarget resolvedOptions,
       secureMode = True,
       history =
         [EvSelect ''Select a debugger'' [''dlv'', ''gdb''] (Inr ''dlv''),
          EvListNamespaces (Inr [''kube-system'', ''squash'', ''ns1'']),
          EvListPods ''ns1'' [] (Inr [examplePod ''svc-1'']),
          EvFindAnyFreePort (Inr 40000),
          EvGetNamespaces (Inr [''kube-system'', ''squash'', ''ns1'']),
          EvListSquashDeployments [''kube-system'', ''squash'', ''ns1''] (Inr [])]\<rparr>)"
  (is "?A \<and> ?B")
proof -
  let ?E = "exampleEnv\<lparr>listSquashDeployments := (\<lambda>h nss. Inr [])\<rparr>"
  let ?o = "machineOptions\<lparr>secureMode := True\<rparr>"
  let ?R = "runBaseCommand ?E ?o"
  have a: ?A
    by simp
  have run: "?R = (fst ?R, snd ?R)"
    by simp
  note t = secure_mode_requires_deployment [OF run a]
  have b: ?B
    using t
    by (simp add: attach_defs run_defs machineOptions_def resolvedOptions_def squashNotDeployed_def)
  show ?thesis
    using a b by (intro conjI)
qed

theorem secure_attach_snapshot_order_witness:
  "runBaseCommandWithRbac debugPodsEnv resolvedOptions =
     (None,
      resolvedOptions\<lparr>history :=
        [EvGetNamespaces (Inr [''kube-system'', ''squash'', ''ns1'']),
         EvListSquashDeployments [''kube-system'', ''squash'', ''ns1''] (Inr [''squash'']),
         EvNewUserController None,
         EvListPods ''ns1'' ''squash=debug'' (Inr [examplePod ''squash-dlv-1'']),
         EvAttach ''svc-1-app'' ''ns1'' ''repo/app:1.0'' ''svc-1'' ''app'' [] ''dlv'',
         EvSleep 3,
         EvListPods ''ns1'' ''squash=debug''
           (Inr [examplePod ''squash-dlv-1'', examplePod ''squash-dlv-2'']),
         EvReportOrConnect (examplePod ''squash-dlv-2'') None]\<rparr>)"
proof -
  let ?R = "runBaseCommandWithRbac debugPodsEnv resolvedOptions"
  have run: "?R = (fst ?R, snd ?R)"
    by simp
  note t = secure_attach_snapshot_order [OF run]
  show ?thesis
    using t
    by (simp add: attach_defs run_defs resolvedOptions_def debugPodsEnv_def)
qed

section \<open>Two or more candidates: one prompt, and only a listed value\<close>

lemma namespace_accepts_listed:
  assumes items: "listNamespaces env (history opts) = Inr items"
    and many: "2 \<le> length (namespaceNames items [])"
    and run: "chooseAllowedNamespace env opts target question = (None, target', opts')"
    and listed: "promptAnswersListed env"
  shows "target' \<in> set (namespaceNames items [])"
proof -
  obtain a b rest where ab: "namespaceNames items [] = a # b # rest"
    using two_or_more [OF many] by blast
  let ?o1 = "record_event (EvListNamespaces (Inr items)) opts"
  let ?r = "askSelect env (history ?o1) question (a # b # rest)"
  have "?r = Inr target'"
    using run unfolding chooseAllowedNamespace_run [OF items]
    by (auto simp: ab Let_def split: sum.splits)
  then have "target' \<in> set (a # b # rest)"
    using listed unfolding promptAnswersListed_def by blast
  then show ?thesis
    by (simp add: ab)
qed

lemma pod_accepts_listed:
  assumes items: "listPods env (history opts) (Namespace (Squash opts)) [] = Inr items"
    and many: "2 \<le> length (podNames (Squash opts) items [])"
    and run: "choosePod env opts = (None, opts')"
    and listed: "promptAnswersListed env"
  shows "Pod (Squash opts') \<in> set (podNames (Squash opts) items [])"
proof -
  obtain a b rest where ab: "podNames (Squash opts) items [] = a # b # rest"
    using two_or_more [OF many] by blast
  let ?o1 = "record_event (EvListPods (Namespace (Squash opts)) [] (Inr items)) opts"
  let ?r = "askSelect env (history ?o1) ''Select a pod'' (a # b # rest)"
  let ?o2 = "record_event (EvSelect ''Select a pod'' (a # b # rest) ?r) ?o1"
  have g: "(None, opts') = (case ?r of Inl err \<Rightarrow> (Some err, ?o2) | Inr choice \<Rightarrow> selectPod choice items ?o2)"
    using run unfolding choosePod_run [OF items] by (simp add: ab Let_def)
  obtain c where r: "?r = Inr c" and sel: "selectPod c items ?o2 = (None, opts')"
    using g by (cases ?r) auto
  have "Pod (Squash opts') = c"
    using selectPod_set [OF sel] by auto
  moreover have "c \<in> set (a # b # rest)"
    using r listed unfolding promptAnswersListed_def by blast
  ultimately show ?thesis
    by (simp add: ab)
qed

lemma container_accepts_listed:
  assumes run: "chooseContainer env opts = (None, opts')"
    and pod: "dt_Pod (DebugTarget opts) = Some p"
  shows "Container (Squash opts') \<in> set (map container_Name (pod_Containers p))"
proof -
  obtain q c o1 where q: "dt_Pod (DebugTarget opts) = Some q" and c: "c \<in> set (pod_Containers q)"
    and o': "opts' = setContainer c o1"
    using chooseContainer_chosen [OF run] by blast
  have "q = p"
    using q pod by simp
  then show ?thesis
    using c o' by (simp add: setContainer_def)
qed

text \<open>
  C3, as the code has it. None of the three selection functions reads the machine-mode
  flag. With two or more candidates, for the namespace, the pod and the container alike and
  in machine mode as in interactive mode, exactly one single-choice prompt is issued and it
  offers exactly the candidates. If the prompt fails, its error is returned; if it answers
  with one of the listed candidates, that candidate is selected. Only a listed value is
  accepted: a container that is selected is always one of the candidates, since the code
  looks the answer up among them (\<open>selected container not found\<close> otherwise), and a
  namespace or a pod that is selected is one of the candidates whenever the prompt answers
  with one of its options, as a \<open>survey.Select\<close> does. A pod answer that names no listed
  pod is refused with \<open>pod not found\<close>.
\<close>

theorem many_candidates_prompt_once:
  "(listNamespaces env (history nopts) = Inr nss \<and> 2 \<le> length (namespaceNames nss []) \<and>
    chooseAllowedNamespace env nopts target question = (ne, target', nopts') \<longrightarrow>
      (\<exists>r. emitted nopts nopts' =
              [EvListNamespaces (Inr nss), EvSelect question (namespaceNames nss []) r] \<and>
           (\<forall>err. r = Inl err \<longrightarrow> ne = Some err) \<and>
           (\<forall>c. r = Inr c \<longrightarrow> ne = None \<and> target' = c)) \<and>
      (promptAnswersListed env \<and> ne = None \<longrightarrow> target' \<in> set (namespaceNames nss []))) \<and>
   (listPods env (history popts) (Namespace (Squash popts)) [] = Inr items \<and>
    2 \<le> length (podNames (Squash popts) items []) \<and>
    choosePod env popts = (pe, popts') \<longrightarrow>
      (\<exists>r. emitted popts popts' =
              [EvListPods (Namespace (Squash popts)) [] (Inr items),
               EvSelect ''Select a pod'' (podNames (Squash popts) items []) r] \<and>
           (\<forall>err. r = Inl err \<longrightarrow> pe = Some err) \<and>
           (\<forall>c. r = Inr c \<and> c \<in> set (podNames (Squash popts) items []) \<longrightarrow>
              pe = None \<and> Pod (Squash popts') = c \<and>
              (\<exists>p \<in> set items. pod_Name p = c \<and> dt_Pod (DebugTarget popts') = Some p)) \<and>
           (\<forall>c. r = Inr c \<and> c \<notin> pod_Name ` set items \<longrightarrow> pe = Some (New ''pod not found''))) \<and>
      (promptAnswersListed env \<and> pe = None \<longrightarrow>
         Pod (Squash popts') \<in> set (podNames (Squash popts) items []))) \<and>
   (dt_Pod (DebugTarget copts) = Some p \<and> 2 \<le> length (pod_Containers p) \<and>
    chooseContainer env copts = (ce, copts') \<longrightarrow>
      (\<exists>r. emitted copts copts' =
              [EvSelect ''Select a container'' (map container_Name (pod_Containers p)) r] \<and>
           (\<forall>err. r = Inl err \<longrightarrow> ce = Some err) \<and>
           (\<forall>c. r = Inr c \<and> c \<in> set (map container_Name (pod_Containers p)) \<longrightarrow>
              ce = None \<and> Container (Squash copts') = c \<and>
              (\<exists>ct \<in> set (pod_Containers p).
                 container_Name ct = c \<and> dt_Container (DebugTarget copts') = Some ct)) \<and>
           (\<forall>c. r = Inr c \<and> c \<notin> set (map container_Name (pod_Containers p)) \<longrightarrow>
              ce = Some (New ''selected container not found''))) \<and>
      (ce = None \<longrightarrow> Container (Squash copts') \<in> set (map container_Name (pod_Containers p))))"
  using namespace_prompts_once [of env nopts nss target question ne target' nopts']
        pod_prompts_once [of env popts items pe popts']
        container_prompts_once [of copts p env ce copts']
        namespace_accepts_listed [of env nopts nss target question target' nopts']
        pod_accepts_listed [of env popts items popts']
        container_accepts_listed [of env copts copts' p]
  by blast

theorem many_candidates_prompt_once_witness:
  "Machine (Squash machineOptions) \<and>
   2 \<le> length (namespaceNames [''ns1'', ''ns2''] []) \<and>
   emitted machineOptions
     (snd (snd (chooseAllowedNamespace (exampleEnv\<lparr>listNamespaces := (\<lambda>h. Inr [''ns1'', ''ns2''])\<rparr>)
                  machineOptions [] ''Select a namespace to debug''))) =
     [EvListNamespaces (Inr [''ns1'', ''ns2'']),
      EvSelect ''Select a namespace to debug'' [''ns1'', ''ns2''] (Inr ''ns1'')] \<and>
   2 \<le> length (podNames (Squash machineOptions) [examplePod ''svc-1'', dbPod] []) \<and>
   emitted machineOptions
     (snd (choosePod (exampleEnv\<lparr>listPods := (\<lambda>h ns sel. Inr [examplePod ''svc-1'', dbPod])\<rparr>)
             machineOptions)) =
     [EvListPods [] [] (Inr [examplePod ''svc-1'', dbPod]),
      EvSelect ''Select a pod'' [''svc-1'', ''db-1''] (Inr ''svc-1'')] \<and>
   2 \<le> length (pod_Containers dbPod) \<and>
   emitted (machineOptions\<lparr>DebugTarget := \<lparr>dt_Pod = Some dbPod, dt_Container = None\<rparr>\<rparr>)
     (snd (chooseContainer exampleEnv
             (machineOptions\<lparr>DebugTarget := \<lparr>dt_Pod = Some dbPod, dt_Container = None\<rparr>\<rparr>))) =
     [EvSelect ''Select a container'' [''db'', ''sidecar''] (Inr ''db'')] \<and>
   promptAnswersListed twoNamespacesEnv \<and>
   chooseAllowedNamespace twoNamespacesEnv machineOptions [] ''Select a namespace to debug'' =
     (None, ''ns1'', snd (snd (chooseAllowedNamespace twoNamespacesEnv machineOptions []
                                 ''Select a namespace to debug''))) \<and>
   ''ns1'' \<in> set (namespaceNames [''ns1'', ''ns2''] []) \<and>
   promptAnswersListed podsEnv \<and>
   fst (choosePod podsEnv machineOptions) = None \<and>
   Pod (Squash (snd (choosePod podsEnv machineOptions)))
     \<in> set (podNames (Squash machineOptions) [examplePod ''svc-1'', dbPod] []) \<and>
   fst (chooseContainer exampleEnv
          (machineOptions\<lparr>DebugTarget := \<lparr>dt_Pod = Some dbPod, dt_Container = None\<rparr>\<rparr>)) = None \<and>
   Container (Squash (snd (chooseContainer exampleEnv
          (machineOptions\<lparr>DebugTarget := \<lparr>dt_Pod = Some dbPod, dt_Container = None\<rparr>\<rparr>))))
     \<in> set (map container_Name (pod_Containers dbPod))"
  (is "?M \<and> ?N2 \<and> ?N \<and> ?P2 \<and> ?P \<and> ?C2 \<and> ?C \<and> ?LN \<and> ?RN \<and> ?AN \<and> ?LP \<and> ?RP \<and> ?AP \<and> ?RC \<and> ?AC")
proof -
  let ?En = "exampleEnv\<lparr>listNamespaces := (\<lambda>h. Inr [''ns1'', ''ns2''])\<rparr>"
  let ?Ep = "exampleEnv\<lparr>listPods := (\<lambda>h ns sel. Inr [examplePod ''svc-1'', dbPod])\<rparr>"
  let ?oc = "machineOptions\<lparr>DebugTarget := \<lparr>dt_Pod = Some dbPod, dt_Container = None\<rparr>\<rparr>"
  let ?Rn = "chooseAllowedNamespace ?En machineOptions [] ''Select a namespace to debug''"
  let ?Rp = "choosePod ?Ep machineOptions"
  let ?Rc = "chooseContainer exampleEnv ?oc"
  note t = many_candidates_prompt_once
             [where env = ?En and nopts = machineOptions and nss = "[''ns1'', ''ns2'']" and target = "[]"
                and question = "''Select a namespace to debug''"
                and ne = "fst ?Rn" and target' = "fst (snd ?Rn)" and nopts' = "snd (snd ?Rn)"]
  have m: ?M
    by (simp add: machineOptions_def)
  have n2: ?N2
    by (simp add: HasPrefix_def)
  have p2: ?P2
    by (simp add: machineOptions_def exampleOptions_def)
  have c2: ?C2
    by (simp add: dbPod_def)
  have n: ?N
    using t
    by (simp add: machineOptions_def exampleOptions_def exampleEnv_def chooseAllowedNamespace_def
          emitted_def HasPrefix_def Let_def)
  have p: ?P
    by (simp add: machineOptions_def exampleOptions_def exampleEnv_def choosePod_def selectPod_def
          examplePod_def dbPod_def emitted_def Let_def)
  have c: ?C
    by (simp add: machineOptions_def exampleOptions_def exampleEnv_def chooseContainer_def
          setContainer_def dbPod_def emitted_def Let_def)
  have listed: "promptAnswersListed exampleEnv"
    by (auto simp: promptAnswersListed_def exampleEnv_def split: list.splits if_splits)
  have ln: ?LN
    using listed by (simp add: promptAnswersListed_def twoNamespacesEnv_def)
  have lp: ?LP
    using listed by (simp add: promptAnswersListed_def podsEnv_def)
  have rn: ?RN
    by (simp add: twoNamespacesEnv_def machineOptions_def exampleOptions_def exampleEnv_def
          chooseAllowedNamespace_def HasPrefix_def Let_def)
  let ?Sn = "chooseAllowedNamespace twoNamespacesEnv machineOptions [] ''Select a namespace to debug''"
  have an: ?AN
    using many_candidates_prompt_once
            [where env = twoNamespacesEnv and nopts = machineOptions and nss = "[''ns1'', ''ns2'']"
               and target = "[]" and question = "''Select a namespace to debug''"
               and ne = None and target' = "''ns1''" and nopts' = "snd (snd ?Sn)"]
          rn ln n2
    by (simp add: twoNamespacesEnv_def)
  have rp: ?RP
    by (simp add: podsEnv_def machineOptions_def exampleOptions_def exampleEnv_def choosePod_def
          selectPod_def examplePod_def dbPod_def Let_def)
  let ?Sp = "choosePod podsEnv machineOptions"
  have runp: "?Sp = (None, snd ?Sp)"
    using rp by (metis prod.collapse)
  have itp: "listPods podsEnv (history machineOptions) (Namespace (Squash machineOptions)) [] =
               Inr [examplePod ''svc-1'', dbPod]"
    by (simp add: podsEnv_def)
  have ap: ?AP
    using many_candidates_prompt_once
            [where env = podsEnv and popts = machineOptions and items = "[examplePod ''svc-1'', dbPod]"
               and pe = None and popts' = "snd ?Sp"]
          runp lp p2 itp
    by blast
  have rc: ?RC
    by (simp add: machineOptions_def exampleOptions_def exampleEnv_def chooseContainer_def
          setContainer_def dbPod_def Let_def)
  have runc: "?Rc = (None, snd ?Rc)"
    using rc by (metis prod.collapse)
  have ac: ?AC
    using many_candidates_prompt_once
            [where env = exampleEnv and copts = ?oc and p = dbPod and ce = None and copts' = "snd ?Rc"]
          runc c2
    by simp
  show ?thesis
    using m n2 n p2 p c2 c ln rn an lp rp ap rc ac by (intro conjI)
qed

text \<open>
  C3 as stated fails: in machine mode, with two candidate namespaces, the prompt is issued
  and the resolution succeeds with the answer.
\<close>

theorem machine_mode_prompts_counterexample:
  "Machine (Squash machineOptions) \<and>
   length (namespaceNames [''ns1'', ''ns2''] []) = 2 \<and>
   chooseAllowedNamespace twoNamespacesEnv machineOptions [] ''Select a namespace to debug'' =
     (None, ''ns1'',
      machineOptions\<lparr>history :=
        [EvListNamespaces (Inr [''ns1'', ''ns2'']),
         EvSelect ''Select a namespace to debug'' [''ns1'', ''ns2''] (Inr ''ns1'')]\<rparr>)"
  by (simp add: twoNamespacesEnv_def machineOptions_def exampleOptions_def exampleEnv_def
        chooseAllowedNamespace_def record_event_def HasPrefix_def Let_def)

end
